theory Spec2Isabelle
  imports Complex_Main "HOL-Library.Word"
begin

section \<open>Strings of the platform\<close>

text \<open>
  A JavaScript string is a sequence of 16-bit code units. String literals of the source are
  written with \<open>lit\<close>, which maps each character of an ASCII literal to its code unit.
\<close>

type_synonym jsstring = "16 word list"

definition lit :: "string \<Rightarrow> jsstring" where
  "lit s = map (\<lambda>c. word_of_nat (of_char c)) s"

text \<open>\<open>Array.prototype.join\<close> on an array of strings.\<close>

fun join :: "jsstring \<Rightarrow> jsstring list \<Rightarrow> jsstring" where
  "join sep [] = []"
| "join sep [x] = x"
| "join sep (x # y # ys) = x @ sep @ join sep (y # ys)"

subsection \<open>encodeURIComponent\<close>

text \<open>
  The built-in \<open>encodeURIComponent\<close> (ECMAScript, abstract operation Encode with an empty
  set of extra unescaped characters): a code unit of the unescaped set is copied; any other
  code unit starts a code point, whose UTF-8 octets are written as \<open>%XX\<close> with upper-case
  hexadecimal digits; an unpaired surrogate raises URIError.
\<close>

datatype error = URIError | InvalidBounds | InvalidLatLng

definition uriUnescaped :: "16 word \<Rightarrow> bool" where
  "uriUnescaped c \<longleftrightarrow>
     (0x41 \<le> c \<and> c \<le> 0x5A) \<or> (0x61 \<le> c \<and> c \<le> 0x7A) \<or> (0x30 \<le> c \<and> c \<le> 0x39) \<or>
     c \<in> set (lit ''-_.!~*'()'')"

definition isLeadingSurrogate :: "16 word \<Rightarrow> bool" where
  "isLeadingSurrogate c \<longleftrightarrow> 0xD800 \<le> c \<and> c \<le> 0xDBFF"

definition isTrailingSurrogate :: "16 word \<Rightarrow> bool" where
  "isTrailingSurrogate c \<longleftrightarrow> 0xDC00 \<le> c \<and> c \<le> 0xDFFF"

definition surrogatePair :: "16 word \<Rightarrow> 16 word \<Rightarrow> nat" where
  "surrogatePair lead trail = (unat lead - 0xD800) * 0x400 + (unat trail - 0xDC00) + 0x10000"

definition utf8 :: "nat \<Rightarrow> nat list" where
  "utf8 cp =
     (if cp < 0x80 then [cp]
      else if cp < 0x800 then [0xC0 + cp div 0x40, 0x80 + cp mod 0x40]
      else if cp < 0x10000 then
        [0xE0 + cp div 0x1000, 0x80 + (cp div 0x40) mod 0x40, 0x80 + cp mod 0x40]
      else
        [0xF0 + cp div 0x40000, 0x80 + (cp div 0x1000) mod 0x40,
         0x80 + (cp div 0x40) mod 0x40, 0x80 + cp mod 0x40])"

definition hexDigit :: "nat \<Rightarrow> 16 word" where
  "hexDigit n = (if n < 10 then word_of_nat (0x30 + n) else word_of_nat (0x41 + (n - 10)))"

definition percentOctet :: "nat \<Rightarrow> jsstring" where
  "percentOctet b = [0x25, hexDigit (b div 16), hexDigit (b mod 16)]"

definition percentCodePoint :: "nat \<Rightarrow> jsstring" where
  "percentCodePoint cp = concat (map percentOctet (utf8 cp))"

fun encodeURIComponent :: "jsstring \<Rightarrow> error + jsstring" where
  "encodeURIComponent [] = Inr []"
| "encodeURIComponent [c] =
     (if uriUnescaped c then Inr [c]
      else if isLeadingSurrogate c \<or> isTrailingSurrogate c then Inl URIError
      else Inr (percentCodePoint (unat c)))"
| "encodeURIComponent (c # d # ds) =
     (if uriUnescaped c then
        (case encodeURIComponent (d # ds) of Inl e \<Rightarrow> Inl e | Inr r \<Rightarrow> Inr (c # r))
      else if isTrailingSurrogate c then Inl URIError
      else if isLeadingSurrogate c then
        (if isTrailingSurrogate d then
           (case encodeURIComponent ds of Inl e \<Rightarrow> Inl e
            | Inr r \<Rightarrow> Inr (percentCodePoint (surrogatePair c d) @ r))
         else Inl URIError)
      else
        (case encodeURIComponent (d # ds) of Inl e \<Rightarrow> Inl e
         | Inr r \<Rightarrow> Inr (percentCodePoint (unat c) @ r)))"

subsection \<open>The percent-encoded form of a name, from the words of the specification\<close>

text \<open>
  Reference definitions, independent of the algorithm above: \<open>codePoints\<close> decodes UTF-16
  (\<open>None\<close> when a surrogate is unpaired), and \<open>percentEncode\<close> is the percent-encoding of a
  sequence of code points: an unreserved character stands for itself, every other code
  point is the \<open>%XX\<close> form of its UTF-8 octets.
\<close>

fun codePoints :: "jsstring \<Rightarrow> nat list option" where
  "codePoints [] = Some []"
| "codePoints [c] =
     (if isLeadingSurrogate c \<or> isTrailingSurrogate c then None else Some [unat c])"
| "codePoints (c # d # ds) =
     (if isTrailingSurrogate c then None
      else if isLeadingSurrogate c then
        (if isTrailingSurrogate d then map_option ((#) (surrogatePair c d)) (codePoints ds)
         else None)
      else map_option ((#) (unat c)) (codePoints (d # ds)))"

definition unreserved :: "nat \<Rightarrow> bool" where
  "unreserved cp \<longleftrightarrow> cp < 0x80 \<and> uriUnescaped (word_of_nat cp)"

definition percentEncode :: "nat list \<Rightarrow> jsstring" where
  "percentEncode cps =
     concat (map (\<lambda>cp. if unreserved cp then [word_of_nat cp] else percentCodePoint cp) cps)"

definition wellFormed :: "jsstring \<Rightarrow> bool" where
  "wellFormed s \<longleftrightarrow> codePoints s \<noteq> None"

section \<open>Numbers of the platform\<close>

text \<open>
  A number of the records is a real number or the value NaN, which the type \<open>number\<close> of
  the source admits and the mapping library refuses as a coordinate. The two infinities
  and the rounding of the platform's arithmetic are left out. The source computes with a
  number in one place only, the comparison of the surface's zoom with 6, and converts two
  to strings; the conversion is the parameter \<open>numberToString\<close> of the functions below.
\<close>

datatype number = NaN | Finite real

section \<open>The outbound link\<close>

text \<open>\<open>createGoogleMapsLink\<close> of MapMarkers.tsx.\<close>

definition createGoogleMapsLink ::
  "(number \<Rightarrow> jsstring) \<Rightarrow> number \<Rightarrow> number \<Rightarrow> jsstring \<Rightarrow> error + jsstring" where
  "createGoogleMapsLink numberToString lat lng name =
     (case encodeURIComponent name of
        Inl e \<Rightarrow> Inl e
      | Inr encodedName \<Rightarrow>
          Inr (lit ''https://www.google.com/maps/search/?api=1&query='' @ numberToString lat @
               lit '','' @ numberToString lng @ lit ''&query_place_id='' @ encodedName))"

section \<open>Domain records\<close>

text \<open>
  The interfaces \<open>Warehouse\<close> and \<open>Chauffeur\<close> of the type declarations. Field names
  shared by both interfaces carry the interface's name as a prefix. \<open>Coordinates\<close> is
  the object type of the field \<open>coordinates\<close>, a pair of numbers; its two fields carry the
  prefix too, since \<open>LatLng\<close>, the coordinate object of the mapping library, has fields of
  the same names. A \<open>LatLng\<close> never holds NaN: the library's constructor refuses it.
\<close>

record Coordinates =
  coordinates_lat :: number
  coordinates_lng :: number

record LatLng =
  lat :: real
  lng :: real

datatype EmployeeType = interne | externe

record Warehouse =
  warehouse_id :: jsstring
  warehouse_name :: jsstring
  companyId :: jsstring
  companyName :: jsstring
  warehouse_phone :: "jsstring list"
  address :: jsstring
  warehouse_coordinates :: Coordinates
  warehouse_createdAt :: jsstring

record Chauffeur =
  chauffeur_id :: jsstring
  firstName :: jsstring
  lastName :: jsstring
  fullName :: jsstring
  username :: jsstring
  password :: jsstring
  chauffeur_phone :: "jsstring list"
  vehicleType :: jsstring
  employeeType :: EmployeeType
  isActive :: bool
  chauffeur_createdAt :: jsstring
  chauffeur_coordinates :: "Coordinates option"

definition employeeTypeString :: "EmployeeType \<Rightarrow> jsstring" where
  "employeeTypeString e = (case e of interne \<Rightarrow> lit ''interne'' | externe \<Rightarrow> lit ''externe'')"

section \<open>Markers, the map surface and the module state\<close>

text \<open>
  The four icons imported from MapIcons are named constants. A callback supplied by the
  caller is a reference, here a number. The click listener registered on a marker is the
  closure of the source: it captures the marker, the optional callback and the record.
\<close>

datatype Icon = warehouseIcon | chauffeurIcon | desktopWarehouseIcon | desktopChauffeurIcon

type_synonym callback = nat

datatype ClickHandler =
  WarehouseClick nat "callback option" Warehouse
| ChauffeurClick nat "callback option" Chauffeur

record PopupOptions =
  maxWidth :: nat
  closeButton :: bool
  autoClose :: bool
  autoPan :: bool
  offset :: "int \<times> int"
  className :: jsstring

record Marker =
  latlng :: LatLng
  icon :: Icon
  popup :: "(jsstring \<times> PopupOptions) option"
  listeners :: "ClickHandler list"

record LatLngBounds =
  southWest :: LatLng
  northEast :: LatLng

datatype MapCall =
  AddTo nat
| RemoveLayer nat
| FitBounds LatLngBounds "real \<times> real" real
| SetView LatLng real

text \<open>
  The state the two exported functions work on. \<open>heap\<close> holds the marker objects; a
  marker handle is its index, so \<open>L.marker\<close> returns a handle no earlier object has.
  \<open>markerCache\<close> is the module-level \<open>Map\<close>, in insertion order. The remaining fields
  are the map surface passed as \<open>map\<close>: its layers, the view it settles at, the record
  of the calls made on it, the two functions of its size and projection that a bounds
  fit uses, and its own limits: \<open>limitZoom\<close> snaps a zoom to the surface's zoom steps and
  clamps it to the surface's minimum and maximum zoom, \<open>limitCenter\<close> moves a centre into
  the surface's maximal bounds. What these four functions compute depends on options of
  the surface that the source never sets, so they are fields of the state.
\<close>

record State =
  heap :: "Marker list"
  markerCache :: "(jsstring \<times> nat) list"
  layers :: "nat set"
  zoom :: real
  center :: LatLng
  calls :: "MapCall list"
  boundsZoom :: "LatLngBounds \<Rightarrow> real \<times> real \<Rightarrow> real"
  boundsCenter :: "LatLngBounds \<Rightarrow> real \<times> real \<Rightarrow> real \<Rightarrow> LatLng"
  limitZoom :: "real \<Rightarrow> real"
  limitCenter :: "LatLng \<Rightarrow> real \<Rightarrow> LatLng"

subsection \<open>The \<open>Map\<close> of the platform\<close>

definition cacheGet :: "(jsstring \<times> nat) list \<Rightarrow> jsstring \<Rightarrow> nat option" where
  "cacheGet c k = map_of c k"

definition cacheSet :: "jsstring \<Rightarrow> nat \<Rightarrow> (jsstring \<times> nat) list \<Rightarrow> (jsstring \<times> nat) list" where
  "cacheSet k v c =
     (if k \<in> fst ` set c then map (\<lambda>(k', v'). if k' = k then (k', v) else (k', v')) c
      else c @ [(k, v)])"

definition cacheDelete :: "jsstring \<Rightarrow> (jsstring \<times> nat) list \<Rightarrow> (jsstring \<times> nat) list" where
  "cacheDelete k c = filter (\<lambda>(k', v'). k' \<noteq> k) c"

subsection \<open>The operations of the mapping library that the source calls\<close>

text \<open>
  The mapping library is an external collaborator. Its operations are modelled by what
  its code does: \<open>L.marker\<close> raises on a NaN latitude or longitude and otherwise
  allocates a marker, \<open>bindPopup\<close> and \<open>on\<close> change that marker, \<open>addTo\<close>,
  \<open>removeLayer\<close> and \<open>hasLayer\<close> work on the layers of the surface, \<open>getBounds\<close> of a
  feature group extends an empty bounds object by each marker's coordinate. \<open>setView\<close>
  limits the zoom it is given by the surface's own limits, then the centre, and moves the
  view there. \<open>fitBounds\<close> refuses invalid bounds; otherwise it takes the zoom the surface
  computes for the bounds, caps it by \<open>maxZoom\<close>, and moves the view as \<open>setView\<close> does,
  so that the surface's own limits have the last word.
\<close>

definition L_marker :: "number \<Rightarrow> number \<Rightarrow> Icon \<Rightarrow> State \<Rightarrow> error + nat \<times> State" where
  "L_marker la lo i s =
     (case (la, lo) of
        (Finite y, Finite x) \<Rightarrow>
          Inr (length (heap s),
               s\<lparr>heap := heap s @
                  [\<lparr>latlng = \<lparr>lat = y, lng = x\<rparr>, icon = i, popup = None, listeners = []\<rparr>]\<rparr>)
      | _ \<Rightarrow> Inl InvalidLatLng)"

definition bindPopup :: "nat \<Rightarrow> jsstring \<Rightarrow> PopupOptions \<Rightarrow> State \<Rightarrow> State" where
  "bindPopup m content options s =
     s\<lparr>heap := (heap s)[m := (heap s ! m)\<lparr>popup := Some (content, options)\<rparr>]\<rparr>"

definition on_click :: "nat \<Rightarrow> ClickHandler \<Rightarrow> State \<Rightarrow> State" where
  "on_click m h s =
     s\<lparr>heap := (heap s)[m := (heap s ! m)\<lparr>listeners := listeners (heap s ! m) @ [h]\<rparr>]\<rparr>"

definition hasLayer :: "State \<Rightarrow> nat \<Rightarrow> bool" where
  "hasLayer s m \<longleftrightarrow> m \<in> layers s"

definition addTo :: "nat \<Rightarrow> State \<Rightarrow> State" where
  "addTo m s = s\<lparr>layers := insert m (layers s), calls := calls s @ [AddTo m]\<rparr>"

definition removeLayer :: "nat \<Rightarrow> State \<Rightarrow> State" where
  "removeLayer m s = s\<lparr>layers := layers s - {m}, calls := calls s @ [RemoveLayer m]\<rparr>"

fun extendBounds :: "LatLngBounds option \<Rightarrow> LatLng \<Rightarrow> LatLngBounds option" where
  "extendBounds None p = Some \<lparr>southWest = p, northEast = p\<rparr>"
| "extendBounds (Some b) p =
     Some \<lparr>southWest = \<lparr>lat = min (lat p) (lat (southWest b)), lng = min (lng p) (lng (southWest b))\<rparr>,
           northEast = \<lparr>lat = max (lat p) (lat (northEast b)), lng = max (lng p) (lng (northEast b))\<rparr>\<rparr>"

definition getBounds :: "State \<Rightarrow> nat list \<Rightarrow> LatLngBounds option" where
  "getBounds s featureGroup = foldl extendBounds None (map (\<lambda>m. latlng (heap s ! m)) featureGroup)"

definition moveView :: "LatLng \<Rightarrow> real \<Rightarrow> State \<Rightarrow> State" where
  "moveView c z s =
     (let z' = limitZoom s z; c' = limitCenter s c z'
      in s\<lparr>zoom := z', center := c'\<rparr>)"

definition setView :: "LatLng \<Rightarrow> real \<Rightarrow> State \<Rightarrow> State" where
  "setView c z s = (moveView c z s)\<lparr>calls := calls s @ [SetView c z]\<rparr>"

definition fitBounds :: "LatLngBounds option \<Rightarrow> real \<times> real \<Rightarrow> real \<Rightarrow> State \<Rightarrow> error + State" where
  "fitBounds bounds padding maxZoom s =
     (case bounds of
        None \<Rightarrow> Inl InvalidBounds
      | Some b \<Rightarrow>
          (let z = min maxZoom (boundsZoom s b (fst padding + fst padding, snd padding + snd padding));
               c = boundsCenter s b padding z
           in Inr ((moveView c z s)\<lparr>calls := calls s @ [FitBounds b padding maxZoom]\<rparr>)))"

section \<open>createMarkers\<close>

text \<open>
  The options object. \<open>map\<close> is the surface held in the state; \<open>isMobile\<close> may be left
  out and then defaults to false.
\<close>

record CreateMarkersOptions =
  warehouses :: "Warehouse list"
  chauffeurs :: "Chauffeur list"
  t :: "jsstring \<Rightarrow> jsstring"
  onWarehouseClick :: "callback option"
  onChauffeurClick :: "callback option"
  isMobile :: "bool option"

definition isMobileOrDefault :: "CreateMarkersOptions \<Rightarrow> bool" where
  "isMobileOrDefault opts = (case isMobile opts of None \<Rightarrow> False | Some b \<Rightarrow> b)"

definition warehouseIconToUse :: "bool \<Rightarrow> Icon" where
  "warehouseIconToUse mobile = (if mobile then warehouseIcon else desktopWarehouseIcon)"

definition chauffeurIconToUse :: "bool \<Rightarrow> Icon" where
  "chauffeurIconToUse mobile = (if mobile then chauffeurIcon else desktopChauffeurIcon)"

definition popupPadding :: "bool \<Rightarrow> jsstring" where
  "popupPadding mobile = (if mobile then lit ''12px'' else lit ''12px'')"

definition popupMinWidth :: "bool \<Rightarrow> jsstring" where
  "popupMinWidth mobile = (if mobile then lit ''280px'' else lit ''200px'')"

definition popupMaxWidth :: "bool \<Rightarrow> jsstring" where
  "popupMaxWidth mobile = (if mobile then lit ''320px'' else lit ''250px'')"

definition popupFontSize :: "bool \<Rightarrow> jsstring" where
  "popupFontSize mobile = (if mobile then lit ''14px'' else lit ''14px'')"

definition popupTitleSize :: "bool \<Rightarrow> jsstring" where
  "popupTitleSize mobile = (if mobile then lit ''16px'' else lit ''16px'')"

definition popupMargin :: "bool \<Rightarrow> jsstring" where
  "popupMargin mobile = (if mobile then lit ''8px'' else lit ''8px'')"

definition popupLineMargin :: "bool \<Rightarrow> jsstring" where
  "popupLineMargin mobile = (if mobile then lit ''6px'' else lit ''4px'')"

definition popupOptions :: "bool \<Rightarrow> PopupOptions" where
  "popupOptions mobile =
     \<lparr>maxWidth = (if mobile then 320 else 250), closeButton = True, autoClose = False,
      autoPan = True, offset = (0, -10), className = lit ''custom-popup''\<rparr>"

definition warehousePopupContent ::
  "CreateMarkersOptions \<Rightarrow> bool \<Rightarrow> Warehouse \<Rightarrow> jsstring \<Rightarrow> jsstring" where
  \<open>warehousePopupContent opts mobile warehouse googleMapsUrl =
     lit ''\<newline>'' @
     lit ''        <div style="padding: '' @
     popupPadding mobile @
     lit ''; min-width: '' @
     popupMinWidth mobile @
     lit ''; max-width: '' @
     popupMaxWidth mobile @
     lit ''; background: white; border-radius: 8px; box-shadow: 0 2px 8px rgba(0,'' @
     lit ''0,0,0.1); overflow: hidden;">\<newline>'' @
     lit ''          <h3 style="font-weight: 600; font-size: '' @
     popupTitleSize mobile @
     lit ''; margin-bottom: '' @
     popupMargin mobile @
     lit ''; color: #1f2937; word-wrap: break-word;">'' @
     warehouse_name warehouse @
     lit ''</h3>\<newline>'' @
     lit ''          <p style="font-size: '' @
     popupFontSize mobile @
     lit ''; color: #6b7280; margin-bottom: '' @
     popupLineMargin mobile @
     lit ''; word-wrap: break-word;"><strong>'' @
     t opts (lit ''warehouses.company'') @
     lit '':</strong> '' @
     companyName warehouse @
     lit ''</p>\<newline>'' @
     lit ''          <p style="font-size: '' @
     popupFontSize mobile @
     lit ''; color: #6b7280; margin-bottom: '' @
     popupLineMargin mobile @
     lit ''; word-wrap: break-word;"><strong>'' @
     t opts (lit ''warehouses.address'') @
     lit '':</strong> '' @
     address warehouse @
     lit ''</p>\<newline>'' @
     lit ''          <p style="font-size: '' @
     popupFontSize mobile @
     lit ''; color: #6b7280; margin-bottom: '' @
     popupMargin mobile @
     lit ''; word-wrap: break-word;"><strong>'' @
     t opts (lit ''warehouses.phone'') @
     lit '':</strong> '' @
     join (lit '', '') (warehouse_phone warehouse) @
     lit ''</p>\<newline>'' @
     lit ''          <a href="'' @
     googleMapsUrl @
     lit ''" target="_blank" style="display: inline-block; background: #4285f4; c'' @
     lit ''olor: white; padding: 8px 12px; text-decoration: none; border-radius: '' @
     lit ''4px; font-size: '' @
     popupFontSize mobile @
     lit ''; font-weight: 500; margin-top: 4px;">'' @
     [0xD83D, 0xDCCD] @
     lit '' Ouvrir dans Google Maps</a>\<newline>'' @
     lit ''        </div>\<newline>'' @
     lit ''      ''\<close>

definition chauffeurPopupContent ::
  "CreateMarkersOptions \<Rightarrow> bool \<Rightarrow> Chauffeur \<Rightarrow> jsstring \<Rightarrow> jsstring" where
  \<open>chauffeurPopupContent opts mobile chauffeur displayName =
     lit ''\<newline>'' @
     lit ''          <div style="padding: '' @
     popupPadding mobile @
     lit ''; min-width: '' @
     popupMinWidth mobile @
     lit ''; max-width: '' @
     popupMaxWidth mobile @
     lit ''; background: white; border-radius: 8px; box-shadow: 0 2px 8px rgba(0,'' @
     lit ''0,0,0.1); overflow: hidden;">\<newline>'' @
     lit ''            <h3 style="font-weight: 600; font-size: '' @
     popupTitleSize mobile @
     lit ''; margin-bottom: '' @
     popupMargin mobile @
     lit ''; color: #1f2937; word-wrap: break-word;">'' @
     displayName @
     lit ''</h3>\<newline>'' @
     lit ''            <p style="font-size: '' @
     popupFontSize mobile @
     lit ''; color: #6b7280; margin-bottom: '' @
     popupLineMargin mobile @
     lit ''; word-wrap: break-word;"><strong>'' @
     t opts (lit ''chauffeurs.employeeType'') @
     lit '':</strong> '' @
     employeeTypeString (employeeType chauffeur) @
     lit ''</p>\<newline>'' @
     lit ''            <p style="font-size: '' @
     popupFontSize mobile @
     lit ''; color: #6b7280; margin-bottom: '' @
     popupLineMargin mobile @
     lit ''; word-wrap: break-word;"><strong>'' @
     t opts (lit ''chauffeurs.vehicleType'') @
     lit '':</strong> '' @
     vehicleType chauffeur @
     lit ''</p>\<newline>'' @
     lit ''            <p style="font-size: '' @
     popupFontSize mobile @
     lit ''; color: #6b7280; word-wrap: break-word;"><strong>'' @
     t opts (lit ''chauffeurs.phone'') @
     lit '':</strong> '' @
     join (lit '', '') (chauffeur_phone chauffeur) @
     lit ''</p>\<newline>'' @
     lit ''          </div>\<newline>'' @
     lit ''        ''\<close>

text \<open>
  What one pass carries besides the state: the list \<open>markers\<close> it will return and the set
  \<open>currentMarkerIds\<close>.
\<close>

record Pass =
  state :: State
  markers :: "nat list"
  currentMarkerIds :: "jsstring set"

text \<open>The end of both loop bodies: attach the marker unless the surface has it, push it.\<close>

definition attachAndPush :: "nat \<Rightarrow> State \<Rightarrow> Pass \<Rightarrow> Pass" where
  "attachAndPush marker s p =
     p\<lparr>state := (if \<not> hasLayer s marker then addTo marker s else s),
       markers := markers p @ [marker]\<rparr>"

text \<open>
  The body of \<open>warehouses.forEach\<close>. When \<open>L.marker\<close> or \<open>encodeURIComponent\<close> raises,
  the exception leaves the pass; the state it leaves behind is returned with the error.
\<close>

definition warehouseBody ::
  "(number \<Rightarrow> jsstring) \<Rightarrow> CreateMarkersOptions \<Rightarrow> Warehouse \<Rightarrow> Pass \<Rightarrow> (error \<times> State) + Pass" where
  "warehouseBody numberToString opts warehouse p0 =
     (let mobile = isMobileOrDefault opts;
          markerId = lit ''warehouse-'' @ warehouse_id warehouse;
          p = p0\<lparr>currentMarkerIds := insert markerId (currentMarkerIds p0)\<rparr>;
          s = state p
      in case cacheGet (markerCache s) markerId of
           Some marker \<Rightarrow> Inr (attachAndPush marker s p)
         | None \<Rightarrow>
             (case L_marker (coordinates_lat (warehouse_coordinates warehouse))
                     (coordinates_lng (warehouse_coordinates warehouse)) (warehouseIconToUse mobile) s of
                Inl e \<Rightarrow> Inl (e, s)
              | Inr (marker, s1) \<Rightarrow>
                  (case createGoogleMapsLink numberToString
                          (coordinates_lat (warehouse_coordinates warehouse))
                          (coordinates_lng (warehouse_coordinates warehouse))
                          (warehouse_name warehouse) of
                     Inl e \<Rightarrow> Inl (e, s1)
                   | Inr googleMapsUrl \<Rightarrow>
                       (let popupContent = warehousePopupContent opts mobile warehouse googleMapsUrl;
                            s2 = bindPopup marker popupContent (popupOptions mobile) s1;
                            s3 = on_click marker (WarehouseClick marker (onWarehouseClick opts) warehouse) s2;
                            s4 = s3\<lparr>markerCache := cacheSet markerId marker (markerCache s3)\<rparr>
                        in Inr (attachAndPush marker s4 p)))))"

fun forEachWarehouse ::
  "(number \<Rightarrow> jsstring) \<Rightarrow> CreateMarkersOptions \<Rightarrow> Warehouse list \<Rightarrow> Pass \<Rightarrow> (error \<times> State) + Pass" where
  "forEachWarehouse numberToString opts [] p = Inr p"
| "forEachWarehouse numberToString opts (w # ws) p =
     (case warehouseBody numberToString opts w p of
        Inl e \<Rightarrow> Inl e
      | Inr p' \<Rightarrow> forEachWarehouse numberToString opts ws p')"

text \<open>
  The body of \<open>chauffeurs.forEach\<close>: a chauffeur without coordinates is passed over; for
  one with coordinates \<open>L.marker\<close> may raise.
\<close>

definition chauffeurBody :: "CreateMarkersOptions \<Rightarrow> Chauffeur \<Rightarrow> Pass \<Rightarrow> (error \<times> State) + Pass" where
  "chauffeurBody opts chauffeur p0 =
     (case chauffeur_coordinates chauffeur of
        None \<Rightarrow> Inr p0
      | Some coordinates \<Rightarrow>
          (let mobile = isMobileOrDefault opts;
               markerId = lit ''chauffeur-'' @ chauffeur_id chauffeur;
               p = p0\<lparr>currentMarkerIds := insert markerId (currentMarkerIds p0)\<rparr>;
               s = state p
           in case cacheGet (markerCache s) markerId of
                Some marker \<Rightarrow> Inr (attachAndPush marker s p)
              | None \<Rightarrow>
                  (let displayName =
                         (if employeeType chauffeur = externe
                          then lit ''TP - '' @ fullName chauffeur else fullName chauffeur)
                   in case L_marker (coordinates_lat coordinates) (coordinates_lng coordinates)
                             (chauffeurIconToUse mobile) s of
                        Inl e \<Rightarrow> Inl (e, s)
                      | Inr (marker, s1) \<Rightarrow>
                          (let popupContent = chauffeurPopupContent opts mobile chauffeur displayName;
                               s2 = bindPopup marker popupContent (popupOptions mobile) s1;
                               s3 = on_click marker (ChauffeurClick marker (onChauffeurClick opts) chauffeur) s2;
                               s4 = s3\<lparr>markerCache := cacheSet markerId marker (markerCache s3)\<rparr>
                           in Inr (attachAndPush marker s4 p)))))"

fun forEachChauffeur ::
  "CreateMarkersOptions \<Rightarrow> Chauffeur list \<Rightarrow> Pass \<Rightarrow> (error \<times> State) + Pass" where
  "forEachChauffeur opts [] p = Inr p"
| "forEachChauffeur opts (c # cs) p =
     (case chauffeurBody opts c p of
        Inl e \<Rightarrow> Inl e
      | Inr p' \<Rightarrow> forEachChauffeur opts cs p')"

text \<open>
  \<open>markerCache.forEach\<close> with a \<open>delete\<close> of the entry being visited: every entry of the
  cache as it stood is visited once, in insertion order.
\<close>

fun removeStale :: "jsstring set \<Rightarrow> (jsstring \<times> nat) list \<Rightarrow> State \<Rightarrow> State" where
  "removeStale ids [] s = s"
| "removeStale ids ((markerId, marker) # entries) s =
     removeStale ids entries
       (if markerId \<notin> ids
        then (let s1 = removeLayer marker s
              in s1\<lparr>markerCache := cacheDelete markerId (markerCache s1)\<rparr>)
        else s)"

definition createMarkers ::
  "(number \<Rightarrow> jsstring) \<Rightarrow> CreateMarkersOptions \<Rightarrow> State \<Rightarrow> (error + nat list) \<times> State" where
  "createMarkers numberToString opts s =
     (case forEachWarehouse numberToString opts (warehouses opts)
             \<lparr>state = s, markers = [], currentMarkerIds = {}\<rparr> of
        Inl (e, s') \<Rightarrow> (Inl e, s')
      | Inr p1 \<Rightarrow>
          (case forEachChauffeur opts (chauffeurs opts) p1 of
             Inl (e, s') \<Rightarrow> (Inl e, s')
           | Inr p2 \<Rightarrow>
               (let s3 = removeStale (currentMarkerIds p2) (markerCache (state p2)) (state p2)
                in (Inr (markers p2), s3))))"

section \<open>fitMapToMarkers\<close>

definition fitMapToMarkers :: "State \<Rightarrow> nat list \<Rightarrow> bool \<Rightarrow> error + State" where
  "fitMapToMarkers s markerList forceRefresh =
     (if length markerList > 0 \<and> forceRefresh then
        fitBounds (getBounds s markerList) (20, 20) 15 s
      else if length markerList > 0 then
        (let currentZoom = zoom s; defaultZoom = 6
         in if \<bar>currentZoom - defaultZoom\<bar> < 1
            then fitBounds (getBounds s markerList) (20, 20) 15 s
            else Inr s)
      else Inr (setView \<lparr>lat = 28.0339, lng = 1.6596\<rparr> 6 s))"

section \<open>Notions the properties are stated with\<close>

text \<open>
  The composite key of a record, and the keys of the records that qualify for a marker:
  every warehouse, then every chauffeur with coordinates, in the order of the input lists.
\<close>

definition warehouseKey :: "Warehouse \<Rightarrow> jsstring" where
  "warehouseKey w = lit ''warehouse-'' @ warehouse_id w"

definition chauffeurKey :: "Chauffeur \<Rightarrow> jsstring" where
  "chauffeurKey c = lit ''chauffeur-'' @ chauffeur_id c"

definition hasCoordinates :: "Chauffeur \<Rightarrow> bool" where
  "hasCoordinates c \<longleftrightarrow> chauffeur_coordinates c \<noteq> None"

definition targetKeys :: "CreateMarkersOptions \<Rightarrow> jsstring list" where
  "targetKeys opts =
     map warehouseKey (warehouses opts) @ map chauffeurKey (filter hasCoordinates (chauffeurs opts))"

definition cacheKeys :: "State \<Rightarrow> jsstring set" where
  "cacheKeys s = fst ` set (markerCache s)"

text \<open>
  What holds of every state the module can be in: a \<open>Map\<close> has no key twice, no marker is
  cached under two keys, and every cached handle is a marker that exists.
\<close>

definition wfState :: "State \<Rightarrow> bool" where
  "wfState s \<longleftrightarrow>
     distinct (map fst (markerCache s)) \<and> distinct (map snd (markerCache s)) \<and>
     list_all (\<lambda>e. snd e < length (heap s)) (markerCache s)"

definition namesEncodable :: "CreateMarkersOptions \<Rightarrow> bool" where
  "namesEncodable opts \<longleftrightarrow> list_all (\<lambda>w. wellFormed (warehouse_name w)) (warehouses opts)"

definition validCoordinates :: "Coordinates \<Rightarrow> bool" where
  "validCoordinates c \<longleftrightarrow> coordinates_lat c \<noteq> NaN \<and> coordinates_lng c \<noteq> NaN"

definition coordinatesValid :: "CreateMarkersOptions \<Rightarrow> bool" where
  "coordinatesValid opts \<longleftrightarrow>
     list_all (\<lambda>w. validCoordinates (warehouse_coordinates w)) (warehouses opts) \<and>
     list_all (\<lambda>c. case chauffeur_coordinates c of None \<Rightarrow> True | Some co \<Rightarrow> validCoordinates co)
       (chauffeurs opts)"

definition returnsNormally :: "(number \<Rightarrow> jsstring) \<Rightarrow> CreateMarkersOptions \<Rightarrow> State \<Rightarrow> bool" where
  "returnsNormally numberToString opts s \<longleftrightarrow>
     (case fst (createMarkers numberToString opts s) of Inl e \<Rightarrow> False | Inr ms \<Rightarrow> True)"

text \<open>The calls made on the surface since the state \<open>s\<close>.\<close>

definition callsSince :: "State \<Rightarrow> State \<Rightarrow> MapCall list" where
  "callsSince s s' = drop (length (calls s)) (calls s')"

text \<open>A sequence of passes, one per options object, whatever each returns.\<close>

fun runPasses :: "(number \<Rightarrow> jsstring) \<Rightarrow> CreateMarkersOptions list \<Rightarrow> State \<Rightarrow> State" where
  "runPasses numberToString [] s = s"
| "runPasses numberToString (opts # rest) s =
     runPasses numberToString rest (snd (createMarkers numberToString opts s))"

definition lacksCoordinates :: "jsstring \<Rightarrow> CreateMarkersOptions \<Rightarrow> bool" where
  "lacksCoordinates ident opts \<longleftrightarrow>
     list_all (\<lambda>c. chauffeur_id c = ident \<longrightarrow> chauffeur_coordinates c = None) (chauffeurs opts)"

text \<open>A coordinate lies in a bounding region; one region lies in another.\<close>

definition inBounds :: "LatLngBounds \<Rightarrow> LatLng \<Rightarrow> bool" where
  "inBounds b p \<longleftrightarrow>
     lat (southWest b) \<le> lat p \<and> lat p \<le> lat (northEast b) \<and>
     lng (southWest b) \<le> lng p \<and> lng p \<le> lng (northEast b)"

definition withinBounds :: "LatLngBounds \<Rightarrow> LatLngBounds \<Rightarrow> bool" where
  "withinBounds b b' \<longleftrightarrow>
     lat (southWest b') \<le> lat (southWest b) \<and> lat (northEast b) \<le> lat (northEast b') \<and>
     lng (southWest b') \<le> lng (southWest b) \<and> lng (northEast b) \<le> lng (northEast b')"

subsection \<open>One visit of a key, as both loop bodies perform it\<close>

text \<open>
  Both loop bodies do the same to the cache, the surface and the pass: look the key up,
  build and cache a marker when it is absent, attach the marker unless attached, push it.
  \<open>visit\<close> states this once, for the marker \<open>mk\<close> the body builds; \<open>visits\<close> is a run of
  visits over a list of keys.
\<close>

definition visit :: "jsstring \<Rightarrow> Marker \<Rightarrow> Pass \<Rightarrow> Pass" where
  "visit k mk p =
     (let s = state p;
          (m, s') = (case map_of (markerCache s) k of
                       Some m \<Rightarrow> (m, s)
                     | None \<Rightarrow> (length (heap s),
                          s\<lparr>heap := heap s @ [mk],
                            markerCache := markerCache s @ [(k, length (heap s))]\<rparr>))
      in p\<lparr>state := (if m \<in> layers s' then s' else addTo m s'),
           markers := markers p @ [m],
           currentMarkerIds := insert k (currentMarkerIds p)\<rparr>)"

inductive visits :: "jsstring list \<Rightarrow> Pass \<Rightarrow> Pass \<Rightarrow> bool" where
  visits_Nil: "visits [] p p"
| visits_Cons: "visits ks (visit k mk p) p' \<Longrightarrow> visits (k # ks) p p'"

section \<open>Sample inputs\<close>

text \<open>
  Concrete records and states to evaluate the definitions on: the state of a freshly
  loaded module with a surface at the default view; a warehouse named Depot Nord, whose
  two accented letters are the code units E9 and F4; a warehouse whose name is a lone
  leading surrogate; a chauffeur with coordinates and one without; a state whose cache
  holds the marker of chauffeur d1; a state with markers at (10, 10) and (20, 20); a
  surface whose maximum zoom is 4 and one whose minimum zoom is 16, as \<open>clampZoom\<close>
  makes the limits of a surface from its minimum and maximum zoom; a warehouse and a
  chauffeur whose latitude is NaN.
  \<open>sampleNumberToString\<close> gives the string form of NaN and of the three numbers the
  samples use.
\<close>

definition clampZoom :: "real \<Rightarrow> real \<Rightarrow> real \<Rightarrow> real" where
  "clampZoom lo hi z = max lo (min hi z)"

definition emptyState :: State where
  "emptyState = \<lparr>heap = [], markerCache = [], layers = {}, zoom = 6,
     center = \<lparr>lat = 28.0339, lng = 1.6596\<rparr>, calls = [],
     boundsZoom = (\<lambda>b p. 18), boundsCenter = (\<lambda>b p z. southWest b),
     limitZoom = clampZoom 0 18, limitCenter = (\<lambda>c z. c)\<rparr>"

definition depotNord :: Warehouse where
  "depotNord = \<lparr>warehouse_id = lit ''w1'',
     warehouse_name = [0x44, 0xE9, 0x70, 0xF4, 0x74, 0x20, 0x4E, 0x6F, 0x72, 0x64],
     companyId = lit ''c1'', companyName = lit ''ACME'', warehouse_phone = [lit ''0550''],
     address = lit ''Alger'', warehouse_coordinates = \<lparr>coordinates_lat = Finite 36, coordinates_lng = Finite 3\<rparr>,
     warehouse_createdAt = lit ''2024''\<rparr>"

definition brokenDepot :: Warehouse where
  "brokenDepot = depotNord\<lparr>warehouse_id := lit ''w2'', warehouse_name := [0xD800]\<rparr>"

definition karim :: Chauffeur where
  "karim = \<lparr>chauffeur_id = lit ''d1'', firstName = lit ''Karim'', lastName = lit ''B'',
     fullName = lit ''Karim B'', username = lit ''kb'', password = lit ''x'',
     chauffeur_phone = [], vehicleType = lit ''camion'', employeeType = externe,
     isActive = True, chauffeur_createdAt = lit ''2024'',
     chauffeur_coordinates = Some \<lparr>coordinates_lat = Finite 10, coordinates_lng = Finite 10\<rparr>\<rparr>"

definition sampleNumberToString :: "number \<Rightarrow> jsstring" where
  "sampleNumberToString n =
     (case n of
        NaN \<Rightarrow> lit ''NaN''
      | Finite x \<Rightarrow> (if x = 36 then lit ''36'' else if x = 3 then lit ''3'' else lit ''10''))"

definition optionsOf :: "Warehouse list \<Rightarrow> Chauffeur list \<Rightarrow> CreateMarkersOptions" where
  "optionsOf ws cs = \<lparr>warehouses = ws, chauffeurs = cs, t = (\<lambda>k. k),
     onWarehouseClick = None, onChauffeurClick = Some 0, isMobile = None\<rparr>"

definition nadia :: Chauffeur where
  "nadia = karim\<lparr>chauffeur_id := lit ''d2'', fullName := lit ''Nadia C'', employeeType := interne,
     chauffeur_coordinates := None\<rparr>"

definition markerAt :: "real \<Rightarrow> real \<Rightarrow> Marker" where
  "markerAt y x = \<lparr>latlng = \<lparr>lat = y, lng = x\<rparr>, icon = desktopChauffeurIcon, popup = None, listeners = []\<rparr>"

definition staleState :: State where
  "staleState = emptyState\<lparr>heap := [markerAt 10 10], markerCache := [(lit ''chauffeur-d1'', 0)],
     layers := {0}\<rparr>"

definition pairState :: State where
  "pairState = emptyState\<lparr>heap := [markerAt 10 10, markerAt 20 20]\<rparr>"

definition lowCeilingState :: State where
  "lowCeilingState = emptyState\<lparr>zoom := 3, limitZoom := clampZoom 0 4\<rparr>"

definition highFloorState :: State where
  "highFloorState = pairState\<lparr>zoom := 17, limitZoom := clampZoom 16 18\<rparr>"

definition nanDepot :: Warehouse where
  "nanDepot = depotNord\<lparr>warehouse_id := lit ''w3'',
     warehouse_coordinates := \<lparr>coordinates_lat = NaN, coordinates_lng = Finite 3\<rparr>\<rparr>"

definition nanKarim :: Chauffeur where
  "nanKarim = karim\<lparr>chauffeur_id := lit ''d3'',
     chauffeur_coordinates := Some \<lparr>coordinates_lat = NaN, coordinates_lng = Finite 10\<rparr>\<rparr>"

section \<open>The encoding against its reference\<close>

lemma unescaped_not_surrogate:
  "uriUnescaped c \<Longrightarrow> \<not> isLeadingSurrogate c \<and> \<not> isTrailingSurrogate c \<and> unat c < 0x80"
  unfolding uriUnescaped_def isLeadingSurrogate_def isTrailingSurrogate_def lit_def
  by (auto simp: word_le_nat_alt word_less_nat_alt)

lemma surrogatePair_ge: "\<not> surrogatePair c d < 128"
  by (simp add: surrogatePair_def)

lemma surr_enc:
  "encodeURIComponent s =
     (case codePoints s of None \<Rightarrow> Inl URIError | Some cps \<Rightarrow> Inr (percentEncode cps))"
proof (induction s rule: encodeURIComponent.induct)
  case 1
  show ?case by (simp add: percentEncode_def)
next
  case (2 c)
  show ?case using unescaped_not_surrogate[of c] by (auto simp: percentEncode_def unreserved_def)
next
  case (3 c d ds)
  then show ?case using unescaped_not_surrogate[of c]
    by (auto simp: percentEncode_def unreserved_def surrogatePair_ge split: option.splits sum.splits)
qed

section \<open>The loops as runs of visits\<close>

lemma visit_Some:
  "map_of (markerCache (state p)) k = Some m \<Longrightarrow>
   visit k mk p = p\<lparr>state := (if m \<in> layers (state p) then state p else addTo m (state p)),
          markers := markers p @ [m], currentMarkerIds := insert k (currentMarkerIds p)\<rparr>"
  by (simp add: visit_def)

lemma visit_None:
  "map_of (markerCache (state p)) k = None \<Longrightarrow>
   visit k mk p =
     (let m = length (heap (state p));
          s' = (state p)\<lparr>heap := heap (state p) @ [mk], markerCache := markerCache (state p) @ [(k, m)]\<rparr>
      in p\<lparr>state := (if m \<in> layers (state p) then s' else addTo m s'),
          markers := markers p @ [m], currentMarkerIds := insert k (currentMarkerIds p)\<rparr>)"
  by (simp add: visit_def Let_def)

lemma cacheSet_fresh: "map_of c k = None \<Longrightarrow> cacheSet k v c = c @ [(k, v)]"
  by (simp add: cacheSet_def map_of_eq_None_iff)

lemma L_marker_Inr:
  "L_marker la lo i s = Inr (m, s1) \<Longrightarrow>
     m = length (heap s) \<and> (\<exists>mk. s1 = s\<lparr>heap := heap s @ [mk]\<rparr>)"
  by (auto simp: L_marker_def split: number.splits)

lemma L_marker_Inl: "L_marker la lo i s = Inl e \<Longrightarrow> e = InvalidLatLng \<and> (la = NaN \<or> lo = NaN)"
  by (auto simp: L_marker_def split: number.splits)

lemma L_marker_valid:
  "la \<noteq> NaN \<Longrightarrow> lo \<noteq> NaN \<Longrightarrow> \<exists>m s1. L_marker la lo i s = Inr (m, s1)"
  by (cases la; cases lo) (simp_all add: L_marker_def)

lemma warehouseBody_visit:
  assumes "warehouseBody nts opts w p = Inr p'"
  shows "p' = visit (warehouseKey w) (last (heap (state p'))) p"
proof (cases "map_of (markerCache (state p)) (warehouseKey w)")
  case (Some m)
  with assms show ?thesis
    by (auto simp add: warehouseBody_def warehouseKey_def visit_Some cacheGet_def attachAndPush_def hasLayer_def Let_def)
next
  case None
  with assms obtain m s1 where
    l: "L_marker (coordinates_lat (warehouse_coordinates w)) (coordinates_lng (warehouse_coordinates w))
          (warehouseIconToUse (isMobileOrDefault opts)) (state p) = Inr (m, s1)"
    by (auto simp: warehouseBody_def warehouseKey_def cacheGet_def Let_def split: sum.splits)
  from L_marker_Inr[OF l] obtain mk where
    m: "m = length (heap (state p))" "s1 = (state p)\<lparr>heap := heap (state p) @ [mk]\<rparr>" by blast
  from assms None l m show ?thesis
    by (auto simp add: warehouseBody_def warehouseKey_def visit_None cacheGet_def attachAndPush_def
        hasLayer_def Let_def bindPopup_def on_click_def cacheSet_fresh addTo_def
        split: sum.splits if_splits)
qed

lemma chauffeurBody_visit:
  assumes "chauffeurBody opts c p = Inr p'" and "chauffeur_coordinates c \<noteq> None"
  shows "p' = visit (chauffeurKey c) (last (heap (state p'))) p"
proof (cases "map_of (markerCache (state p)) (chauffeurKey c)")
  case (Some m)
  with assms show ?thesis
    by (auto simp add: chauffeurBody_def chauffeurKey_def visit_Some cacheGet_def attachAndPush_def hasLayer_def Let_def)
next
  case None
  from assms(2) obtain co where co: "chauffeur_coordinates c = Some co" by auto
  with assms None obtain m s1 where
    l: "L_marker (coordinates_lat co) (coordinates_lng co)
          (chauffeurIconToUse (isMobileOrDefault opts)) (state p) = Inr (m, s1)"
    by (auto simp: chauffeurBody_def chauffeurKey_def cacheGet_def Let_def split: sum.splits)
  from L_marker_Inr[OF l] obtain mk where
    m: "m = length (heap (state p))" "s1 = (state p)\<lparr>heap := heap (state p) @ [mk]\<rparr>" by blast
  from assms None co l m show ?thesis
    by (auto simp add: chauffeurBody_def chauffeurKey_def visit_None cacheGet_def attachAndPush_def
        hasLayer_def Let_def bindPopup_def on_click_def cacheSet_fresh addTo_def
        split: sum.splits if_splits)
qed

lemma visits_append: "visits ks p p' \<Longrightarrow> visits ks' p' p'' \<Longrightarrow> visits (ks @ ks') p p''"
  by (induction rule: visits.induct) (auto intro: visits.intros)

lemma visits_ids: "visits ks p p' \<Longrightarrow> currentMarkerIds p' = currentMarkerIds p \<union> set ks"
proof (induction rule: visits.induct)
  case (visits_Cons ks k mk p p')
  then show ?case by (cases "map_of (markerCache (state p)) k") (auto simp: visit_Some visit_None Let_def)
qed simp

lemma addTo_sel [simp]:
  "heap (addTo m s) = heap s" "markerCache (addTo m s) = markerCache s"
  "layers (addTo m s) = insert m (layers s)" "calls (addTo m s) = calls s @ [AddTo m]"
  "zoom (addTo m s) = zoom s" "center (addTo m s) = center s"
  "boundsZoom (addTo m s) = boundsZoom s" "boundsCenter (addTo m s) = boundsCenter s"
  by (simp_all add: addTo_def)

lemma visit_cache:
  "markerCache (state (visit k mk p)) =
     (case map_of (markerCache (state p)) k of Some m \<Rightarrow> markerCache (state p)
      | None \<Rightarrow> markerCache (state p) @ [(k, length (heap (state p)))])"
  by (cases "map_of (markerCache (state p)) k") (auto simp: visit_Some visit_None Let_def)

lemma visit_heap:
  "heap (state (visit k mk p)) =
     (case map_of (markerCache (state p)) k of Some m \<Rightarrow> heap (state p)
      | None \<Rightarrow> heap (state p) @ [mk])"
  by (cases "map_of (markerCache (state p)) k") (auto simp: visit_Some visit_None Let_def)

lemma visit_view [simp]:
  "zoom (state (visit k mk p)) = zoom (state p)" "center (state (visit k mk p)) = center (state p)"
  "boundsZoom (state (visit k mk p)) = boundsZoom (state p)"
  "boundsCenter (state (visit k mk p)) = boundsCenter (state p)"
  by (cases "map_of (markerCache (state p)) k"; auto simp: visit_Some visit_None Let_def)+

lemma visit_effect:
  "\<exists>m. map_of (markerCache (state (visit k mk p))) k = Some m \<and>
       markers (visit k mk p) = markers p @ [m] \<and>
       layers (state (visit k mk p)) = insert m (layers (state p)) \<and>
       calls (state (visit k mk p)) = calls (state p) @ (if m \<in> layers (state p) then [] else [AddTo m])"
  by (cases "map_of (markerCache (state p)) k") (auto simp: visit_Some visit_None Let_def map_add_def)

lemma visits_cache_grows:
  "visits ks p p' \<Longrightarrow> \<exists>new. markerCache (state p') = markerCache (state p) @ new \<and> fst ` set new \<subseteq> set ks"
proof (induction rule: visits.induct)
  case (visits_Cons ks k mk p p')
  then obtain new where new: "markerCache (state p') = markerCache (state (visit k mk p)) @ new"
      "fst ` set new \<subseteq> set ks" by blast
  show ?case
  proof (cases "map_of (markerCache (state p)) k")
    case None
    with new show ?thesis
      by (intro exI[of _ "(k, length (heap (state p))) # new"]) (auto simp: visit_cache)
  next
    case (Some m)
    with new show ?thesis by (intro exI[of _ new]) (auto simp: visit_cache)
  qed
qed simp

lemma visits_heap_grows:
  "visits ks p p' \<Longrightarrow> \<exists>new. heap (state p') = heap (state p) @ new"
proof (induction rule: visits.induct)
  case (visits_Cons ks k mk p p')
  then show ?case by (auto simp: visit_heap split: option.splits)
qed simp

lemma visits_view:
  "visits ks p p' \<Longrightarrow> zoom (state p') = zoom (state p) \<and> center (state p') = center (state p) \<and>
     boundsZoom (state p') = boundsZoom (state p) \<and> boundsCenter (state p') = boundsCenter (state p)"
  by (induction rule: visits.induct) auto

lemma map_of_append_Some: "map_of c k = Some m \<Longrightarrow> map_of (c @ new) k = Some m"
  by (simp add: map_add_Some_iff)

lemma visits_lookup_stable:
  "visits ks p p' \<Longrightarrow> map_of (markerCache (state p)) k = Some m \<Longrightarrow> map_of (markerCache (state p')) k = Some m"
  using visits_cache_grows[of ks p p'] by (auto simp: map_of_append_Some)

lemma visits_keys:
  "visits ks p p' \<Longrightarrow> fst ` set (markerCache (state p')) = fst ` set (markerCache (state p)) \<union> set ks"
proof (induction rule: visits.induct)
  case (visits_Cons ks k mk p p')
  then show ?case
  proof (cases "map_of (markerCache (state p)) k")
    case None
    with visits_Cons.IH show ?thesis by (auto simp: visit_cache)
  next
    case (Some m)
    then have "k \<in> fst ` set (markerCache (state p))" by (force dest: map_of_SomeD)
    with Some visits_Cons.IH show ?thesis by (auto simp: visit_cache)
  qed
qed simp

lemma visits_markers:
  "visits ks p p' \<Longrightarrow> \<exists>ms. markers p' = markers p @ ms \<and> map (map_of (markerCache (state p'))) ks = map Some ms
      \<and> set ms \<subseteq> layers (state p') \<and> layers (state p) \<subseteq> layers (state p')"
proof (induction rule: visits.induct)
  case (visits_Cons ks k mk p p')
  obtain m where m: "map_of (markerCache (state (visit k mk p))) k = Some m"
     "markers (visit k mk p) = markers p @ [m]" "layers (state (visit k mk p)) = insert m (layers (state p))"
    using visit_effect[of k mk p] by blast
  from visits_Cons.IH obtain ms where ms: "markers p' = markers (visit k mk p) @ ms"
     "map (map_of (markerCache (state p'))) ks = map Some ms" "set ms \<subseteq> layers (state p')"
     "layers (state (visit k mk p)) \<subseteq> layers (state p')" by blast
  have "map_of (markerCache (state p')) k = Some m"
    using visits_lookup_stable[OF visits_Cons.hyps m(1)] .
  with m ms show ?case by (intro exI[of _ "m # ms"]) auto
qed simp

lemma visits_calls:
  "visits ks p p' \<Longrightarrow> \<exists>adds. calls (state p') = calls (state p) @ adds \<and> (\<forall>c\<in>set adds. \<exists>m. c = AddTo m)"
proof (induction rule: visits.induct)
  case (visits_Cons ks k mk p p')
  obtain m where m: "calls (state (visit k mk p)) = calls (state p) @ (if m \<in> layers (state p) then [] else [AddTo m])"
    using visit_effect[of k mk p] by blast
  with visits_Cons.IH show ?case by (auto split: if_splits)
qed simp

lemma visit_wf:
  assumes "wfState (state p)"
  shows "wfState (state (visit k mk p))"
proof (cases "map_of (markerCache (state p)) k")
  case None
  then have k: "k \<notin> fst ` set (markerCache (state p))" by (simp add: map_of_eq_None_iff)
  have "length (heap (state p)) \<notin> snd ` set (markerCache (state p))"
    using assms by (auto simp: wfState_def list_all_iff)
  with assms k None show ?thesis
    by (auto simp: wfState_def visit_cache visit_heap list_all_iff)
next
  case (Some m)
  with assms show ?thesis by (simp add: wfState_def visit_cache visit_heap)
qed

lemma visits_wf: "visits ks p p' \<Longrightarrow> wfState (state p) \<Longrightarrow> wfState (state p')"
  by (induction rule: visits.induct) (auto simp: visit_wf)

lemma visit_noop:
  "map_of (markerCache (state p)) k = Some m \<Longrightarrow> m \<in> layers (state p) \<Longrightarrow> state (visit k mk p) = state p"
  by (simp add: visit_Some)

lemma visits_noop:
  "visits ks p p' \<Longrightarrow> (\<forall>k\<in>set ks. \<exists>m. map_of (markerCache (state p)) k = Some m \<and> m \<in> layers (state p))
     \<Longrightarrow> state p' = state p"
  by (induction rule: visits.induct) (auto simp: visit_noop)

lemma removeLayer_sel [simp]:
  "heap (removeLayer m s) = heap s" "markerCache (removeLayer m s) = markerCache s"
  "layers (removeLayer m s) = layers s - {m}" "calls (removeLayer m s) = calls s @ [RemoveLayer m]"
  "zoom (removeLayer m s) = zoom s" "center (removeLayer m s) = center s"
  "boundsZoom (removeLayer m s) = boundsZoom s" "boundsCenter (removeLayer m s) = boundsCenter s"
  by (simp_all add: removeLayer_def)

lemma removeStale_frame:
  "heap (removeStale ids es s) = heap s \<and> zoom (removeStale ids es s) = zoom s \<and>
   center (removeStale ids es s) = center s \<and> boundsZoom (removeStale ids es s) = boundsZoom s \<and>
   boundsCenter (removeStale ids es s) = boundsCenter s"
  by (induction ids es s rule: removeStale.induct) (auto simp: Let_def)

lemma removeStale_cache:
  "markerCache (removeStale ids es s) =
     filter (\<lambda>e. fst e \<in> ids \<or> fst e \<notin> fst ` set es) (markerCache s)"
proof (induction ids es s rule: removeStale.induct)
  case (2 ids markerId marker entries s)
  then show ?case
    by (auto simp: Let_def cacheDelete_def filter_filter case_prod_unfold intro!: filter_cong)
qed simp

lemma removeStale_layers:
  "layers (removeStale ids es s) = layers s - snd ` {e \<in> set es. fst e \<notin> ids}"
proof (induction ids es s rule: removeStale.induct)
  case (2 ids markerId marker entries s)
  have eq: "{e \<in> set ((markerId, marker) # entries). fst e \<notin> ids} =
        (if markerId \<notin> ids then insert (markerId, marker) {e \<in> set entries. fst e \<notin> ids}
         else {e \<in> set entries. fst e \<notin> ids})"
    by auto
  show ?case unfolding eq using 2 by (auto simp: Let_def)
qed simp

lemma removeStale_calls:
  "calls (removeStale ids es s) = calls s @ map (\<lambda>e. RemoveLayer (snd e)) (filter (\<lambda>e. fst e \<notin> ids) es)"
  by (induction ids es s rule: removeStale.induct) (auto simp: Let_def)

lemma removeStale_noop: "fst ` set es \<subseteq> ids \<Longrightarrow> removeStale ids es s = s"
  by (induction ids es s rule: removeStale.induct) auto

lemma removeStale_cache_self:
  "markerCache (removeStale ids (markerCache s) s) = filter (\<lambda>e. fst e \<in> ids) (markerCache s)"
  unfolding removeStale_cache by (rule filter_cong) auto

lemma visits_step: "p1 = visit k mk p \<Longrightarrow> visits ks p1 p' \<Longrightarrow> visits (k # ks) p p'"
  using visits_Cons[of ks k mk p p'] by simp

lemma forEachWarehouse_visits:
  "forEachWarehouse nts opts ws p = Inr p' \<Longrightarrow> visits (map warehouseKey ws) p p'"
proof (induction ws arbitrary: p)
  case Nil then show ?case by (auto intro: visits.intros)
next
  case (Cons w ws)
  then obtain p1 where p1: "warehouseBody nts opts w p = Inr p1" "forEachWarehouse nts opts ws p1 = Inr p'"
    by (auto split: sum.splits)
  from warehouseBody_visit[OF p1(1)] Cons.IH[OF p1(2)] show ?case
    by (simp add: visits_step)
qed

text \<open>
  A body that raises leaves the cache, the layers and the calls as they were; the heap has
  at most gained the marker that was built before \<open>encodeURIComponent\<close> raised.
\<close>

lemma warehouseBody_Inl:
  assumes "warehouseBody nts opts w p = Inl (e, s')"
  shows "\<exists>new. s' = (state p)\<lparr>heap := heap (state p) @ new\<rparr>"
proof (cases "L_marker (coordinates_lat (warehouse_coordinates w)) (coordinates_lng (warehouse_coordinates w))
          (warehouseIconToUse (isMobileOrDefault opts)) (state p)")
  case (Inl a)
  with assms have "s' = state p"
    by (auto simp: warehouseBody_def Let_def split: option.splits sum.splits)
  then have "s' = (state p)\<lparr>heap := heap (state p) @ []\<rparr>" by simp
  then show ?thesis by blast
next
  case (Inr b)
  obtain m s1 where b: "b = (m, s1)" by (cases b)
  from L_marker_Inr[OF Inr[unfolded b]] obtain mk where
    m: "s1 = (state p)\<lparr>heap := heap (state p) @ [mk]\<rparr>" by blast
  from assms Inr b have "s' = s1"
    by (auto simp: warehouseBody_def Let_def split: option.splits sum.splits)
  with m show ?thesis by blast
qed

lemma warehouseBody_returns:
  assumes "wellFormed (warehouse_name w)" and "validCoordinates (warehouse_coordinates w)"
  shows "\<exists>p'. warehouseBody nts opts w p = Inr p'"
proof -
  from assms(2) L_marker_valid obtain m s1 where
    "L_marker (coordinates_lat (warehouse_coordinates w)) (coordinates_lng (warehouse_coordinates w))
          (warehouseIconToUse (isMobileOrDefault opts)) (state p) = Inr (m, s1)"
    unfolding validCoordinates_def by blast
  with assms(1) show ?thesis
    by (auto simp: warehouseBody_def Let_def cacheGet_def createGoogleMapsLink_def
        surr_enc wellFormed_def split: option.splits sum.splits)
qed

lemma forEachWarehouse_returns:
  "list_all (\<lambda>w. wellFormed (warehouse_name w)) ws \<Longrightarrow>
   list_all (\<lambda>w. validCoordinates (warehouse_coordinates w)) ws \<Longrightarrow>
     \<exists>p'. forEachWarehouse nts opts ws p = Inr p'"
proof (induction ws arbitrary: p)
  case (Cons w ws)
  then obtain p1 where "warehouseBody nts opts w p = Inr p1"
    using warehouseBody_returns[of w nts opts p] by auto
  with Cons show ?case by auto
qed simp

lemma forEachWarehouse_Inl:
  "forEachWarehouse nts opts ws p = Inl (e, s') \<Longrightarrow>
     \<exists>ks p1 new. visits ks p p1 \<and> set ks \<subseteq> warehouseKey ` set ws \<and>
        s' = (state p1)\<lparr>heap := heap (state p1) @ new\<rparr>"
proof (induction ws arbitrary: p)
  case Nil then show ?case by simp
next
  case (Cons w ws)
  show ?case
  proof (cases "warehouseBody nts opts w p")
    case (Inl a)
    with Cons.prems have "warehouseBody nts opts w p = Inl (e, s')" by simp
    from warehouseBody_Inl[OF this] obtain new where "s' = (state p)\<lparr>heap := heap (state p) @ new\<rparr>"
      by blast
    then show ?thesis
      by (intro exI[of _ "[]"] exI[of _ p] exI[of _ new]) (auto intro: visits.intros)
  next
    case (Inr p1)
    with Cons.prems have "forEachWarehouse nts opts ws p1 = Inl (e, s')" by simp
    from Cons.IH[OF this] obtain ks p2 new where
      h: "visits ks p1 p2" "set ks \<subseteq> warehouseKey ` set ws"
         "s' = (state p2)\<lparr>heap := heap (state p2) @ new\<rparr>" by blast
    from warehouseBody_visit[OF Inr] h(1) have "visits (warehouseKey w # ks) p p2"
      by (rule visits_step)
    with h show ?thesis by (intro exI[of _ "warehouseKey w # ks"] exI[of _ p2] exI[of _ new]) auto
  qed
qed

lemma chauffeurBody_None: "chauffeur_coordinates c = None \<Longrightarrow> chauffeurBody opts c p = Inr p"
  by (simp add: chauffeurBody_def)

lemma chauffeurBody_Inl:
  assumes "chauffeurBody opts c p = Inl (e, s')"
  shows "s' = state p \<and> chauffeur_coordinates c \<noteq> None"
  using assms
  by (auto simp: chauffeurBody_def Let_def split: option.splits sum.splits)

lemma chauffeurBody_returns:
  assumes "case chauffeur_coordinates c of None \<Rightarrow> True | Some co \<Rightarrow> validCoordinates co"
  shows "\<exists>p'. chauffeurBody opts c p = Inr p'"
proof (cases "chauffeur_coordinates c")
  case None then show ?thesis by (simp add: chauffeurBody_None)
next
  case (Some co)
  with assms L_marker_valid obtain m s1 where
    "L_marker (coordinates_lat co) (coordinates_lng co)
          (chauffeurIconToUse (isMobileOrDefault opts)) (state p) = Inr (m, s1)"
    unfolding validCoordinates_def by fastforce
  with Some show ?thesis
    by (auto simp: chauffeurBody_def Let_def split: option.splits sum.splits)
qed

lemma forEachChauffeur_returns:
  "list_all (\<lambda>c. case chauffeur_coordinates c of None \<Rightarrow> True | Some co \<Rightarrow> validCoordinates co) cs \<Longrightarrow>
     \<exists>p'. forEachChauffeur opts cs p = Inr p'"
proof (induction cs arbitrary: p)
  case (Cons c cs)
  then obtain p1 where "chauffeurBody opts c p = Inr p1"
    using chauffeurBody_returns[of c opts p] by auto
  with Cons show ?case by auto
qed simp

lemma forEachChauffeur_visits:
  "forEachChauffeur opts cs p = Inr p' \<Longrightarrow> visits (map chauffeurKey (filter hasCoordinates cs)) p p'"
proof (induction cs arbitrary: p)
  case Nil then show ?case by (auto intro: visits.intros)
next
  case (Cons c cs)
  then obtain p1 where p1: "chauffeurBody opts c p = Inr p1" "forEachChauffeur opts cs p1 = Inr p'"
    by (auto split: sum.splits)
  show ?case
  proof (cases "chauffeur_coordinates c")
    case None
    with p1(1) have "p1 = p" by (simp add: chauffeurBody_None)
    moreover have "\<not> hasCoordinates c" using None by (simp add: hasCoordinates_def)
    ultimately show ?thesis using Cons.IH[OF p1(2)] by simp
  next
    case (Some a)
    then have n: "chauffeur_coordinates c \<noteq> None" by simp
    from chauffeurBody_visit[OF p1(1) n] Cons.IH[OF p1(2)]
    have "visits (chauffeurKey c # map chauffeurKey (filter hasCoordinates cs)) p p'"
      by (rule visits_step)
    moreover have "hasCoordinates c" using Some by (simp add: hasCoordinates_def)
    ultimately show ?thesis by simp
  qed
qed

lemma forEachChauffeur_Inl:
  "forEachChauffeur opts cs p = Inl (e, s') \<Longrightarrow>
     \<exists>ks p1. visits ks p p1 \<and> set ks \<subseteq> chauffeurKey ` set (filter hasCoordinates cs) \<and> s' = state p1"
proof (induction cs arbitrary: p)
  case Nil then show ?case by simp
next
  case (Cons c cs)
  show ?case
  proof (cases "chauffeurBody opts c p")
    case (Inl a)
    with Cons.prems have "chauffeurBody opts c p = Inl (e, s')" by simp
    from chauffeurBody_Inl[OF this] show ?thesis
      by (intro exI[of _ "[]"] exI[of _ p]) (auto intro: visits.intros)
  next
    case (Inr p1)
    with Cons.prems have "forEachChauffeur opts cs p1 = Inl (e, s')" by simp
    from Cons.IH[OF this] obtain ks p2 where
      h: "visits ks p1 p2" "set ks \<subseteq> chauffeurKey ` set (filter hasCoordinates cs)" "s' = state p2"
      by blast
    show ?thesis
    proof (cases "chauffeur_coordinates c")
      case None
      with Inr have "p1 = p" by (simp add: chauffeurBody_None)
      with h show ?thesis by (intro exI[of _ ks] exI[of _ p2]) auto
    next
      case (Some a)
      then have n: "chauffeur_coordinates c \<noteq> None" by simp
      from chauffeurBody_visit[OF Inr n] h(1) have "visits (chauffeurKey c # ks) p p2"
        by (rule visits_step)
      moreover have "hasCoordinates c" using Some by (simp add: hasCoordinates_def)
      ultimately show ?thesis using h
        by (intro exI[of _ "chauffeurKey c # ks"] exI[of _ p2]) auto
    qed
  qed
qed

lemma forEachChauffeur_filter:
  "forEachChauffeur opts (filter hasCoordinates cs) p = forEachChauffeur opts cs p"
  by (induction cs arbitrary: p)
     (auto simp: hasCoordinates_def chauffeurBody_None split: sum.splits cong: sum.case_cong)

lemma createMarkers_Inr:
  assumes "createMarkers nts opts s = (Inr ms, s')"
  shows "\<exists>p2. visits (targetKeys opts) \<lparr>state = s, markers = [], currentMarkerIds = {}\<rparr> p2 \<and>
           ms = markers p2 \<and>
           s' = removeStale (currentMarkerIds p2) (markerCache (state p2)) (state p2)"
proof -
  from assms obtain p1 where p1:
    "forEachWarehouse nts opts (warehouses opts) \<lparr>state = s, markers = [], currentMarkerIds = {}\<rparr> = Inr p1"
    by (auto simp: createMarkers_def split: sum.splits prod.splits)
  with assms obtain p2 where p2: "forEachChauffeur opts (chauffeurs opts) p1 = Inr p2"
    by (auto simp: createMarkers_def split: sum.splits prod.splits)
  have "visits (targetKeys opts) \<lparr>state = s, markers = [], currentMarkerIds = {}\<rparr> p2"
    unfolding targetKeys_def
    by (rule visits_append[OF forEachWarehouse_visits[OF p1] forEachChauffeur_visits[OF p2]])
  moreover from assms p1 p2 have "ms = markers p2"
      "s' = removeStale (currentMarkerIds p2) (markerCache (state p2)) (state p2)"
    by (auto simp: createMarkers_def Let_def)
  ultimately show ?thesis by blast
qed

lemma createMarkers_Inl:
  assumes "createMarkers nts opts s = (Inl e, s')"
  shows "\<exists>ks p1 new. visits ks \<lparr>state = s, markers = [], currentMarkerIds = {}\<rparr> p1 \<and>
           set ks \<subseteq> set (targetKeys opts) \<and>
           s' = (state p1)\<lparr>heap := heap (state p1) @ new\<rparr>"
proof (cases "forEachWarehouse nts opts (warehouses opts) \<lparr>state = s, markers = [], currentMarkerIds = {}\<rparr>")
  case (Inl a)
  with assms have
    "forEachWarehouse nts opts (warehouses opts) \<lparr>state = s, markers = [], currentMarkerIds = {}\<rparr> = Inl (e, s')"
    by (auto simp: createMarkers_def Let_def split: sum.splits prod.splits)
  from forEachWarehouse_Inl[OF this] obtain ks p1 new where
    h: "visits ks \<lparr>state = s, markers = [], currentMarkerIds = {}\<rparr> p1"
       "set ks \<subseteq> warehouseKey ` set (warehouses opts)"
       "s' = (state p1)\<lparr>heap := heap (state p1) @ new\<rparr>" by blast
  from h(2) have "set ks \<subseteq> set (targetKeys opts)" by (auto simp: targetKeys_def)
  with h show ?thesis by blast
next
  case (Inr p1)
  with assms have c: "forEachChauffeur opts (chauffeurs opts) p1 = Inl (e, s')"
    by (auto simp: createMarkers_def Let_def split: sum.splits prod.splits)
  from forEachChauffeur_Inl[OF c] obtain ks p2 where
    h: "visits ks p1 p2" "set ks \<subseteq> chauffeurKey ` set (filter hasCoordinates (chauffeurs opts))"
       "s' = state p2" by blast
  from visits_append[OF forEachWarehouse_visits[OF Inr] h(1)]
  have "visits (map warehouseKey (warehouses opts) @ ks) \<lparr>state = s, markers = [], currentMarkerIds = {}\<rparr> p2" .
  moreover from h(2) have "set (map warehouseKey (warehouses opts) @ ks) \<subseteq> set (targetKeys opts)"
    by (auto simp: targetKeys_def)
  moreover from h(3) have "s' = (state p2)\<lparr>heap := heap (state p2) @ []\<rparr>" by simp
  ultimately show ?thesis by blast
qed

text \<open>
  In this model a pass returns when no warehouse name has an unpaired surrogate and no
  coordinate is NaN.
\<close>

lemma createMarkers_returns:
  assumes "namesEncodable opts" and "coordinatesValid opts"
  shows "returnsNormally nts opts s"
proof -
  from assms obtain p1 where
    p1: "forEachWarehouse nts opts (warehouses opts) \<lparr>state = s, markers = [], currentMarkerIds = {}\<rparr> = Inr p1"
    using forEachWarehouse_returns[of "warehouses opts" nts opts]
    by (auto simp: namesEncodable_def coordinatesValid_def)
  from assms(2) obtain p2 where "forEachChauffeur opts (chauffeurs opts) p1 = Inr p2"
    using forEachChauffeur_returns[of "chauffeurs opts" opts p1] by (auto simp: coordinatesValid_def)
  with p1 show ?thesis by (simp add: returnsNormally_def createMarkers_def Let_def)
qed

lemma returnsNormally_iff:
  "returnsNormally nts opts s \<longleftrightarrow> (\<exists>ms s'. createMarkers nts opts s = (Inr ms, s'))"
  by (cases "createMarkers nts opts s") (auto simp: returnsNormally_def split: sum.splits)

section \<open>What a pass leaves behind\<close>

lemma map_of_filter_key:
  "P k \<Longrightarrow> map_of (filter (\<lambda>e. P (fst e)) c) k = map_of c k"
  by (induction c) auto

lemma pass0_sel [simp]:
  "visits ks \<lparr>state = s, markers = [], currentMarkerIds = {}\<rparr> p2 \<Longrightarrow> currentMarkerIds p2 = set ks"
  using visits_ids[of ks "\<lparr>state = s, markers = [], currentMarkerIds = {}\<rparr>" p2] by simp

text \<open>What a pass that returns leaves behind, in terms of the run of visits.\<close>

lemma createMarkers_Inr_facts:
  assumes "createMarkers nts opts s = (Inr ms, s')"
  obtains p2 where
    "visits (targetKeys opts) \<lparr>state = s, markers = [], currentMarkerIds = {}\<rparr> p2"
    "ms = markers p2"
    "markerCache s' = filter (\<lambda>e. fst e \<in> set (targetKeys opts)) (markerCache (state p2))"
    "heap s' = heap (state p2)"
    "layers s' = layers (state p2) - snd ` {e \<in> set (markerCache (state p2)). fst e \<notin> set (targetKeys opts)}"
    "calls s' = calls (state p2) @ map (\<lambda>e. RemoveLayer (snd e))
                  (filter (\<lambda>e. fst e \<notin> set (targetKeys opts)) (markerCache (state p2)))"
    "map (map_of (markerCache (state p2))) (targetKeys opts) = map Some ms"
    "set ms \<subseteq> layers (state p2)"
proof -
  from createMarkers_Inr[OF assms] obtain p2 where p2:
    "visits (targetKeys opts) \<lparr>state = s, markers = [], currentMarkerIds = {}\<rparr> p2"
    "ms = markers p2"
    "s' = removeStale (currentMarkerIds p2) (markerCache (state p2)) (state p2)" by blast
  have ids: "currentMarkerIds p2 = set (targetKeys opts)" using p2(1) by simp
  from visits_markers[OF p2(1)] p2(2) have
    "map (map_of (markerCache (state p2))) (targetKeys opts) = map Some ms" "set ms \<subseteq> layers (state p2)"
    by auto
  with p2 ids show ?thesis
    by (intro that[of p2]) (simp_all add: removeStale_cache_self removeStale_frame removeStale_layers removeStale_calls)
qed

lemma createMarkers_keys:
  assumes "createMarkers nts opts s = (Inr ms, s')"
  shows "cacheKeys s' = set (targetKeys opts)"
proof -
  from assms obtain p2 where p2:
    "visits (targetKeys opts) \<lparr>state = s, markers = [], currentMarkerIds = {}\<rparr> p2"
    "markerCache s' = filter (\<lambda>e. fst e \<in> set (targetKeys opts)) (markerCache (state p2))"
    by (rule createMarkers_Inr_facts)
  from visits_keys[OF p2(1)] have "fst ` set (markerCache (state p2)) = fst ` set (markerCache s) \<union> set (targetKeys opts)"
    by simp
  then have "fst ` set (filter (\<lambda>e. fst e \<in> set (targetKeys opts)) (markerCache (state p2))) = set (targetKeys opts)"
    by (auto simp: image_iff) 
  then show ?thesis unfolding cacheKeys_def p2(2) .
qed

lemma createMarkers_wf_Inr:
  assumes "wfState s" "createMarkers nts opts s = (Inr ms, s')"
  shows "wfState s'"
proof -
  from assms(2) obtain p2 where p2:
    "visits (targetKeys opts) \<lparr>state = s, markers = [], currentMarkerIds = {}\<rparr> p2"
    "markerCache s' = filter (\<lambda>e. fst e \<in> set (targetKeys opts)) (markerCache (state p2))"
    "heap s' = heap (state p2)"
    by (rule createMarkers_Inr_facts)
  from visits_wf[OF p2(1)] assms(1) have "wfState (state p2)" by simp
  then show ?thesis unfolding wfState_def p2(2,3)
    by (auto simp: distinct_map_filter list_all_iff)
qed

lemma createMarkers_wf_Inl:
  assumes "wfState s" "createMarkers nts opts s = (Inl e, s')"
  shows "wfState s'"
proof -
  from createMarkers_Inl[OF assms(2)] obtain ks p1 new where h:
    "visits ks \<lparr>state = s, markers = [], currentMarkerIds = {}\<rparr> p1"
    "s' = (state p1)\<lparr>heap := heap (state p1) @ new\<rparr>" by blast
  from visits_wf[OF h(1)] assms(1) have "wfState (state p1)" by simp
  then show ?thesis unfolding h(2) by (auto simp: wfState_def list_all_iff)
qed

lemma createMarkers_wf:
  assumes "wfState s"
  shows "wfState (snd (createMarkers nts opts s))"
proof (cases "createMarkers nts opts s")
  case (Pair r s')
  show ?thesis
  proof (cases r)
    case (Inl e)
    with Pair createMarkers_wf_Inl[OF assms, of nts opts e s'] show ?thesis by simp
  next
    case (Inr ms)
    with Pair createMarkers_wf_Inr[OF assms, of nts opts ms s'] show ?thesis by simp
  qed
qed

lemma createMarkers_returned:
  assumes "createMarkers nts opts s = (Inr ms, s')"
  shows "map (cacheGet (markerCache s')) (targetKeys opts) = map Some ms"
proof -
  from assms obtain p2 :: Pass where p2:
    "markerCache s' = filter (\<lambda>e. fst e \<in> set (targetKeys opts)) (markerCache (state p2))"
    "map (map_of (markerCache (state p2))) (targetKeys opts) = map Some ms"
    by (rule createMarkers_Inr_facts)
  have "map (cacheGet (markerCache s')) (targetKeys opts) = map (map_of (markerCache (state p2))) (targetKeys opts)"
    unfolding p2(1) cacheGet_def
    by (rule map_cong[OF refl]) (simp add: map_of_filter_key[where P="\<lambda>k. k \<in> set (targetKeys opts)"])
  with p2(2) show ?thesis by simp
qed

lemma enc_broken: "encodeURIComponent [0xD800] = Inl URIError"
  by (simp add: uriUnescaped_def isLeadingSurrogate_def isTrailingSurrogate_def lit_def)

lemma wf_empty: "wfState emptyState"
  by (simp add: wfState_def emptyState_def)

lemma wellFormed_depot: "wellFormed (warehouse_name depotNord)"
  by (simp add: wellFormed_def depotNord_def isLeadingSurrogate_def isTrailingSurrogate_def)

section \<open>Bounds, stale entries, repeated passes\<close>

lemma foldl_extend_Some: "\<exists>b. foldl extendBounds (Some b0) ps = Some b"
  by (induction ps arbitrary: b0) auto

lemma getBounds_nonempty: "markerList \<noteq> [] \<Longrightarrow> \<exists>b. getBounds s markerList = Some b"
  by (cases markerList) (auto simp: getBounds_def foldl_extend_Some)

lemma withinBounds_refl: "withinBounds b b"
  by (simp add: withinBounds_def)

lemma withinBounds_trans: "withinBounds a b \<Longrightarrow> withinBounds b c \<Longrightarrow> withinBounds a c"
  by (auto simp: withinBounds_def)

lemma inBounds_mono: "inBounds a p \<Longrightarrow> withinBounds a b \<Longrightarrow> inBounds b p"
  by (auto simp: withinBounds_def inBounds_def)

lemma extend_covers:
  "extendBounds (Some b0) p = Some b \<Longrightarrow> withinBounds b0 b \<and> inBounds b p"
  by (auto simp: withinBounds_def inBounds_def)

lemma extend_least:
  "extendBounds (Some b0) p = Some b \<Longrightarrow> withinBounds b0 b' \<Longrightarrow> inBounds b' p \<Longrightarrow> withinBounds b b'"
  by (auto simp: withinBounds_def inBounds_def)

lemma foldl_extend_covers:
  "foldl extendBounds (Some b0) ps = Some b \<Longrightarrow> withinBounds b0 b \<and> (\<forall>p\<in>set ps. inBounds b p)"
proof (induction ps arbitrary: b0)
  case Nil then show ?case by (simp add: withinBounds_refl)
next
  case (Cons p ps)
  obtain b1 where b1: "extendBounds (Some b0) p = Some b1" by simp
  with Cons.prems have "foldl extendBounds (Some b1) ps = Some b" by simp
  from Cons.IH[OF this] extend_covers[OF b1] show ?case
    by (auto intro: withinBounds_trans inBounds_mono)
qed

lemma foldl_extend_least:
  "foldl extendBounds (Some b0) ps = Some b \<Longrightarrow> withinBounds b0 b' \<Longrightarrow> (\<forall>p\<in>set ps. inBounds b' p)
     \<Longrightarrow> withinBounds b b'"
proof (induction ps arbitrary: b0)
  case Nil then show ?case by simp
next
  case (Cons p ps)
  obtain b1 where b1: "extendBounds (Some b0) p = Some b1" by simp
  with Cons.prems have f: "foldl extendBounds (Some b1) ps = Some b" by simp
  from extend_least[OF b1 Cons.prems(2)] Cons.prems(3) have "withinBounds b1 b'" by simp
  from Cons.IH[OF f this] Cons.prems(3) show ?case by simp
qed

lemma getBounds_smallest:
  assumes "getBounds s markerList = Some b"
  shows "(\<forall>m\<in>set markerList. inBounds b (latlng (heap s ! m))) \<and>
         (\<forall>b'. (\<forall>m\<in>set markerList. inBounds b' (latlng (heap s ! m))) \<longrightarrow> withinBounds b b')"
proof (cases markerList)
  case Nil with assms show ?thesis by (simp add: getBounds_def)
next
  case (Cons m ms)
  let ?p = "latlng (heap s ! m)"
  let ?b0 = "\<lparr>southWest = ?p, northEast = ?p\<rparr>"
  from assms Cons have f: "foldl extendBounds (Some ?b0) (map (\<lambda>m. latlng (heap s ! m)) ms) = Some b"
    by (simp add: getBounds_def)
  from foldl_extend_covers[OF f] have c: "withinBounds ?b0 b" "\<forall>m\<in>set ms. inBounds b (latlng (heap s ! m))"
    by auto
  from c(1) have "inBounds b ?p" by (simp add: withinBounds_def inBounds_def)
  moreover have "withinBounds b b'" if h: "\<forall>m\<in>set markerList. inBounds b' (latlng (heap s ! m))" for b'
  proof -
    from h Cons have "withinBounds ?b0 b'" by (simp add: withinBounds_def inBounds_def)
    moreover from h Cons have "\<forall>p\<in>set (map (\<lambda>m. latlng (heap s ! m)) ms). inBounds b' p" by simp
    ultimately show ?thesis by (rule foldl_extend_least[OF f])
  qed
  ultimately show ?thesis using c(2) Cons by auto
qed

lemma fitBounds_Some:
  "fitBounds (Some b) (20, 20) 15 s =
     Inr (s\<lparr>zoom := limitZoom s (min 15 (boundsZoom s b (40, 40))),
            center := limitCenter s (boundsCenter s b (20, 20) (min 15 (boundsZoom s b (40, 40))))
                        (limitZoom s (min 15 (boundsZoom s b (40, 40)))),
            calls := calls s @ [FitBounds b (20, 20) 15]\<rparr>)"
  by (simp add: fitBounds_def moveView_def Let_def)

lemma codePoints_depot:
  "codePoints (warehouse_name depotNord) = Some [0x44, 0xE9, 0x70, 0xF4, 0x74, 0x20, 0x4E, 0x6F, 0x72, 0x64]"
  by (simp add: depotNord_def isLeadingSurrogate_def isTrailingSurrogate_def)

lemma percentEncode_depot:
  "percentEncode [0x44, 0xE9, 0x70, 0xF4, 0x74, 0x20, 0x4E, 0x6F, 0x72, 0x64] = lit ''D%C3%A9p%C3%B4t%20Nord''"
  by (simp add: percentEncode_def unreserved_def uriUnescaped_def lit_def percentCodePoint_def utf8_def
      percentOctet_def hexDigit_def)

lemma snd_inj_cache:
  "distinct (map snd c) \<Longrightarrow> (k, m) \<in> set c \<Longrightarrow> (k', m) \<in> set c \<Longrightarrow> k = k'"
proof -
  assume d: "distinct (map snd c)" and a: "(k, m) \<in> set c" and b: "(k', m) \<in> set c"
  from d have "inj_on snd (set c)" by (simp add: distinct_map)
  from inj_onD[OF this _ a b] show "k = k'" by simp
qed

lemma map_Some_lookup:
  "map f ks = map Some ms \<Longrightarrow> k \<in> set ks \<Longrightarrow> \<exists>m\<in>set ms. f k = Some m"
proof (induction ks arbitrary: ms)
  case (Cons a ks)
  then show ?case by (cases ms) auto
qed simp

lemma map_Some_handle:
  "map f ks = map Some ms \<Longrightarrow> m \<in> set ms \<Longrightarrow> \<exists>k\<in>set ks. f k = Some m"
proof (induction ks arbitrary: ms)
  case (Cons a ks)
  then show ?case by (cases ms) auto
qed simp

text \<open>After the visits of a pass, no handle of a target key is the handle of a stale key.\<close>

lemma target_not_stale:
  assumes wf: "wfState (state p2)"
    and look: "map (map_of (markerCache (state p2))) T = map Some ms"
    and m: "m \<in> set ms"
  shows "m \<notin> snd ` {e \<in> set (markerCache (state p2)). fst e \<notin> set T}"
proof
  assume "m \<in> snd ` {e \<in> set (markerCache (state p2)). fst e \<notin> set T}"
  then obtain k' where k': "(k', m) \<in> set (markerCache (state p2))" "k' \<notin> set T" by force
  from map_Some_handle[OF look m] obtain k where k: "k \<in> set T" "map_of (markerCache (state p2)) k = Some m"
    by blast
  from k(2) have "(k, m) \<in> set (markerCache (state p2))" by (rule map_of_SomeD)
  with wf k' have "k = k'" by (auto simp: wfState_def dest: snd_inj_cache)
  with k(1) k'(2) show False by simp
qed

lemma createMarkers_removal:
  assumes wf: "wfState s"
    and r: "createMarkers nts opts s = (Inr ms, s')"
    and c: "cacheGet (markerCache s) k = Some m"
    and k: "k \<notin> set (targetKeys opts)"
  shows "RemoveLayer m \<in> set (callsSince s s') \<and> m \<notin> layers s' \<and> k \<notin> cacheKeys s' \<and> m \<notin> set ms"
proof -
  let ?T = "targetKeys opts"
  from r obtain p2 where p2:
    "visits ?T \<lparr>state = s, markers = [], currentMarkerIds = {}\<rparr> p2"
    "layers s' = layers (state p2) - snd ` {e \<in> set (markerCache (state p2)). fst e \<notin> set ?T}"
    "calls s' = calls (state p2) @ map (\<lambda>e. RemoveLayer (snd e))
                  (filter (\<lambda>e. fst e \<notin> set ?T) (markerCache (state p2)))"
    "map (map_of (markerCache (state p2))) ?T = map Some ms"
    by (rule createMarkers_Inr_facts)
  from visits_lookup_stable[OF p2(1), of k m] c have "map_of (markerCache (state p2)) k = Some m"
    by (simp add: cacheGet_def)
  then have e: "(k, m) \<in> set (markerCache (state p2))" by (rule map_of_SomeD)
  from visits_calls[OF p2(1)] obtain adds where adds: "calls (state p2) = calls s @ adds" by auto
  have stale: "(k, m) \<in> {e \<in> set (markerCache (state p2)). fst e \<notin> set ?T}" using e k by simp
  have "RemoveLayer m \<in> set (map (\<lambda>e. RemoveLayer (snd e))
          (filter (\<lambda>e. fst e \<notin> set ?T) (markerCache (state p2))))"
    using e k by force
  then have 1: "RemoveLayer m \<in> set (callsSince s s')"
    unfolding callsSince_def p2(3) adds by simp
  have "m \<in> snd ` {e \<in> set (markerCache (state p2)). fst e \<notin> set ?T}"
    using stale by force
  then have 2: "m \<notin> layers s'" unfolding p2(2) by simp
  have 3: "k \<notin> cacheKeys s'" using createMarkers_keys[OF r] k by simp
  from visits_wf[OF p2(1)] wf have wf2: "wfState (state p2)" by simp
  have 4: "m \<notin> set ms"
  proof
    assume "m \<in> set ms"
    from target_not_stale[OF wf2 p2(4) this] stale show False by force
  qed
  from 1 2 3 4 show ?thesis by simp
qed

lemma warehouseBody_cached:
  "map_of (markerCache (state p)) (warehouseKey w) = Some m \<Longrightarrow> \<exists>p'. warehouseBody nts opts w p = Inr p'"
  by (simp add: warehouseBody_def warehouseKey_def cacheGet_def Let_def)

lemma forEachWarehouse_cached:
  "warehouseKey ` set ws \<subseteq> fst ` set (markerCache (state p)) \<Longrightarrow> \<exists>p'. forEachWarehouse nts opts ws p = Inr p'"
proof (induction ws arbitrary: p)
  case Nil show ?case by simp
next
  case (Cons w ws)
  from Cons.prems have "warehouseKey w \<in> fst ` set (markerCache (state p))" by simp
  then obtain m where "map_of (markerCache (state p)) (warehouseKey w) = Some m"
    by (cases "map_of (markerCache (state p)) (warehouseKey w)") (auto simp: map_of_eq_None_iff)
  from warehouseBody_cached[OF this] obtain p1 where p1: "warehouseBody nts opts w p = Inr p1" by blast
  from warehouseBody_visit[OF p1] have "visits [warehouseKey w] p p1"
    by (rule visits_step) (rule visits_Nil)
  from visits_keys[OF this] Cons.prems have "warehouseKey ` set ws \<subseteq> fst ` set (markerCache (state p1))"
    by auto
  from Cons.IH[OF this] p1 show ?case by simp
qed

lemma chauffeurBody_cached:
  "map_of (markerCache (state p)) (chauffeurKey c) = Some m \<Longrightarrow> \<exists>p'. chauffeurBody opts c p = Inr p'"
  by (simp add: chauffeurBody_def chauffeurKey_def cacheGet_def Let_def split: option.splits)

lemma forEachChauffeur_cached:
  "chauffeurKey ` set (filter hasCoordinates cs) \<subseteq> fst ` set (markerCache (state p)) \<Longrightarrow>
     \<exists>p'. forEachChauffeur opts cs p = Inr p'"
proof (induction cs arbitrary: p)
  case Nil show ?case by simp
next
  case (Cons c cs)
  show ?case
  proof (cases "chauffeur_coordinates c")
    case None
    then have b: "chauffeurBody opts c p = Inr p" by (rule chauffeurBody_None)
    from None have "\<not> hasCoordinates c" by (simp add: hasCoordinates_def)
    with Cons.prems have "chauffeurKey ` set (filter hasCoordinates cs) \<subseteq> fst ` set (markerCache (state p))"
      by simp
    from Cons.IH[OF this] b show ?thesis by simp
  next
    case (Some a)
    then have hc: "hasCoordinates c" and n: "chauffeur_coordinates c \<noteq> None"
      by (simp_all add: hasCoordinates_def)
    with Cons.prems have "chauffeurKey c \<in> fst ` set (markerCache (state p))" by simp
    then obtain m where "map_of (markerCache (state p)) (chauffeurKey c) = Some m"
      by (cases "map_of (markerCache (state p)) (chauffeurKey c)") (auto simp: map_of_eq_None_iff)
    from chauffeurBody_cached[OF this] obtain p1 where p1: "chauffeurBody opts c p = Inr p1" by blast
    from chauffeurBody_visit[OF p1 n] have "visits [chauffeurKey c] p p1"
      by (rule visits_step) (rule visits_Nil)
    from visits_keys[OF this] Cons.prems hc
    have "chauffeurKey ` set (filter hasCoordinates cs) \<subseteq> fst ` set (markerCache (state p1))"
      by auto
    from Cons.IH[OF this] p1 show ?thesis by simp
  qed
qed

lemma createMarkers_cached_returns:
  assumes "set (targetKeys opts) \<subseteq> cacheKeys s"
  shows "\<exists>ms s'. createMarkers nts opts s = (Inr ms, s')"
proof -
  let ?p0 = "\<lparr>state = s, markers = [], currentMarkerIds = {}\<rparr>"
  from assms have "warehouseKey ` set (warehouses opts) \<subseteq> fst ` set (markerCache (state ?p0))"
    by (auto simp: targetKeys_def cacheKeys_def)
  from forEachWarehouse_cached[OF this, of nts opts]
  obtain p1 where p1: "forEachWarehouse nts opts (warehouses opts) ?p0 = Inr p1"
    by auto
  from visits_keys[OF forEachWarehouse_visits[OF p1]] assms
  have "chauffeurKey ` set (filter hasCoordinates (chauffeurs opts)) \<subseteq> fst ` set (markerCache (state p1))"
    by (auto simp: targetKeys_def cacheKeys_def)
  from forEachChauffeur_cached[OF this, of opts] obtain p2 where
    "forEachChauffeur opts (chauffeurs opts) p1 = Inr p2" by blast
  with p1 show ?thesis by (simp add: createMarkers_def Let_def)
qed

lemma createMarkers_second:
  assumes wf: "wfState s" and r: "createMarkers nts opts s = (Inr ms, s')"
  shows "createMarkers nts' opts s' = (Inr ms, s')"
proof -
  let ?T = "targetKeys opts"
  from r obtain p2 where p2:
    "visits ?T \<lparr>state = s, markers = [], currentMarkerIds = {}\<rparr> p2"
    "markerCache s' = filter (\<lambda>e. fst e \<in> set ?T) (markerCache (state p2))"
    "layers s' = layers (state p2) - snd ` {e \<in> set (markerCache (state p2)). fst e \<notin> set ?T}"
    "map (map_of (markerCache (state p2))) ?T = map Some ms"
    "set ms \<subseteq> layers (state p2)"
    by (rule createMarkers_Inr_facts)
  from visits_wf[OF p2(1)] wf have wf2: "wfState (state p2)" by simp
  have keys: "cacheKeys s' = set ?T" by (rule createMarkers_keys[OF r])
  have look: "map (map_of (markerCache s')) ?T = map Some ms"
    using createMarkers_returned[OF r] by (simp add: cacheGet_def[abs_def])
  have att: "set ms \<subseteq> layers s'"
  proof
    fix m assume m: "m \<in> set ms"
    from target_not_stale[OF wf2 p2(4) m] p2(5) m show "m \<in> layers s'" unfolding p2(3) by auto
  qed
  have ready: "\<forall>k\<in>set ?T. \<exists>m. map_of (markerCache s') k = Some m \<and> m \<in> layers s'"
  proof
    fix k assume "k \<in> set ?T"
    from map_Some_lookup[OF look this] att show "\<exists>m. map_of (markerCache s') k = Some m \<and> m \<in> layers s'"
      by auto
  qed
  from keys have "set ?T \<subseteq> cacheKeys s'" by simp
  from createMarkers_cached_returns[OF this, of nts'] obtain ms2 s2 where
    r2: "createMarkers nts' opts s' = (Inr ms2, s2)" by blast
  from createMarkers_Inr[OF r2] obtain q where q:
    "visits ?T \<lparr>state = s', markers = [], currentMarkerIds = {}\<rparr> q" "ms2 = markers q"
    "s2 = removeStale (currentMarkerIds q) (markerCache (state q)) (state q)" by blast
  from visits_noop[OF q(1)] ready have st: "state q = s'" by simp
  from q(1) have ids: "currentMarkerIds q = set ?T" by simp
  have "s2 = s'" unfolding q(3) st ids
    by (rule removeStale_noop) (use keys in \<open>simp add: cacheKeys_def\<close>)
  moreover from visits_markers[OF q(1)] q(2) st have "map (map_of (markerCache s')) ?T = map Some ms2"
    by auto
  with look have "map Some ms2 = map Some ms" by simp
  then have "ms2 = ms" by (simp add: inj_map_eq_map[OF inj_Some])
  ultimately show ?thesis using r2 by simp
qed

lemma createMarkers_heap_grows:
  "createMarkers nts opts s = (r, s') \<Longrightarrow> \<exists>new. heap s' = heap s @ new"
proof (cases r)
  case (Inl e)
  assume "createMarkers nts opts s = (r, s')"
  with Inl have "createMarkers nts opts s = (Inl e, s')" by simp
  from createMarkers_Inl[OF this] obtain ks p1 new where h:
    "visits ks \<lparr>state = s, markers = [], currentMarkerIds = {}\<rparr> p1"
    "s' = (state p1)\<lparr>heap := heap (state p1) @ new\<rparr>" by blast
  from visits_heap_grows[OF h(1)] h(2) show ?thesis by auto
next
  case (Inr ms)
  assume "createMarkers nts opts s = (r, s')"
  with Inr have "createMarkers nts opts s = (Inr ms, s')" by simp
  then obtain p2 where p2:
    "visits (targetKeys opts) \<lparr>state = s, markers = [], currentMarkerIds = {}\<rparr> p2"
    "heap s' = heap (state p2)"
    by (rule createMarkers_Inr_facts)
  from visits_heap_grows[OF p2(1)] p2(2) show ?thesis by auto
qed

lemma createMarkers_lookup_kept:
  assumes "createMarkers nts opts s = (r, s')" and "cacheGet (markerCache s) k = Some m"
    and "k \<in> set (targetKeys opts)"
  shows "cacheGet (markerCache s') k = Some m"
proof (cases r)
  case (Inl e)
  with assms(1) have "createMarkers nts opts s = (Inl e, s')" by simp
  from createMarkers_Inl[OF this] obtain ks p1 new where h:
    "visits ks \<lparr>state = s, markers = [], currentMarkerIds = {}\<rparr> p1"
    "s' = (state p1)\<lparr>heap := heap (state p1) @ new\<rparr>" by blast
  from visits_lookup_stable[OF h(1), of k m] assms(2) h(2) show ?thesis by (simp add: cacheGet_def)
next
  case (Inr ms)
  with assms(1) have "createMarkers nts opts s = (Inr ms, s')" by simp
  then obtain p2 where p2:
    "visits (targetKeys opts) \<lparr>state = s, markers = [], currentMarkerIds = {}\<rparr> p2"
    "markerCache s' = filter (\<lambda>e. fst e \<in> set (targetKeys opts)) (markerCache (state p2))"
    by (rule createMarkers_Inr_facts)
  from visits_lookup_stable[OF p2(1), of k m] assms(2) have "map_of (markerCache (state p2)) k = Some m"
    by (simp add: cacheGet_def)
  with assms(3) show ?thesis unfolding p2(2) cacheGet_def
    by (simp add: map_of_filter_key[where P="\<lambda>k. k \<in> set (targetKeys opts)"])
qed

lemma warehousePopupContent_chauffeurs_irrelevant:
  "warehousePopupContent (opts\<lparr>chauffeurs := cs\<rparr>) mobile w url = warehousePopupContent opts mobile w url"
  by (simp add: warehousePopupContent_def)

lemma chauffeurPopupContent_chauffeurs_irrelevant:
  "chauffeurPopupContent (opts\<lparr>chauffeurs := cs\<rparr>) mobile c name = chauffeurPopupContent opts mobile c name"
  by (simp add: chauffeurPopupContent_def)

lemma warehouseBody_chauffeurs_irrelevant:
  "warehouseBody nts (opts\<lparr>chauffeurs := cs\<rparr>) w p = warehouseBody nts opts w p"
  by (simp add: warehouseBody_def isMobileOrDefault_def warehousePopupContent_chauffeurs_irrelevant
      cong: option.case_cong sum.case_cong)

lemma forEachWarehouse_chauffeurs_irrelevant:
  "forEachWarehouse nts (opts\<lparr>chauffeurs := cs\<rparr>) ws p = forEachWarehouse nts opts ws p"
  by (induction ws arbitrary: p) (simp_all add: warehouseBody_chauffeurs_irrelevant cong: sum.case_cong)

lemma chauffeurBody_chauffeurs_irrelevant:
  "chauffeurBody (opts\<lparr>chauffeurs := cs\<rparr>) c p = chauffeurBody opts c p"
  by (simp add: chauffeurBody_def isMobileOrDefault_def chauffeurPopupContent_chauffeurs_irrelevant
      cong: option.case_cong sum.case_cong)

lemma forEachChauffeur_chauffeurs_irrelevant:
  "forEachChauffeur (opts\<lparr>chauffeurs := cs'\<rparr>) cs p = forEachChauffeur opts cs p"
  by (induction cs arbitrary: p) (simp_all add: chauffeurBody_chauffeurs_irrelevant cong: sum.case_cong)

lemma createMarkers_filter:
  "createMarkers nts (opts\<lparr>chauffeurs := filter hasCoordinates (chauffeurs opts)\<rparr>) s =
     createMarkers nts opts s"
  by (simp add: createMarkers_def forEachWarehouse_chauffeurs_irrelevant
      forEachChauffeur_chauffeurs_irrelevant forEachChauffeur_filter cong: sum.case_cong)

lemma warehouseKey_not_chauffeur: "warehouseKey w \<noteq> lit ''chauffeur-'' @ ident"
  by (simp add: warehouseKey_def lit_def)

lemma createMarkers_no_entry:
  assumes "lacksCoordinates ident opts" and "lit ''chauffeur-'' @ ident \<notin> cacheKeys s"
  shows "lit ''chauffeur-'' @ ident \<notin> cacheKeys (snd (createMarkers nts opts s))"
proof (cases "createMarkers nts opts s")
  case (Pair r s')
  have notT: "lit ''chauffeur-'' @ ident \<notin> set (targetKeys opts)"
    using assms(1)
    by (auto simp: targetKeys_def lacksCoordinates_def list_all_iff hasCoordinates_def chauffeurKey_def
        warehouseKey_not_chauffeur[symmetric])
  show ?thesis
  proof (cases r)
    case (Inl e)
    with Pair have "createMarkers nts opts s = (Inl e, s')" by simp
    from createMarkers_Inl[OF this] obtain ks p1 new where h:
      "visits ks \<lparr>state = s, markers = [], currentMarkerIds = {}\<rparr> p1"
      "set ks \<subseteq> set (targetKeys opts)"
      "s' = (state p1)\<lparr>heap := heap (state p1) @ new\<rparr>" by blast
    from visits_keys[OF h(1)] h(3) have "cacheKeys s' = cacheKeys s \<union> set ks" by (simp add: cacheKeys_def)
    with h(2) assms(2) notT Pair show ?thesis by auto
  next
    case (Inr ms)
    with Pair have "createMarkers nts opts s = (Inr ms, s')" by simp
    from createMarkers_keys[OF this] notT Pair show ?thesis by simp
  qed
qed

lemma runPasses_no_entry:
  "list_all (lacksCoordinates ident) passes \<Longrightarrow> lit ''chauffeur-'' @ ident \<notin> cacheKeys s \<Longrightarrow>
     lit ''chauffeur-'' @ ident \<notin> cacheKeys (runPasses nts passes s)"
  by (induction passes arbitrary: s) (simp_all add: createMarkers_no_entry)

lemma lit_append: "lit (a @ b) = lit a @ lit b"
  by (simp add: lit_def)

lemma wf_stale: "wfState staleState"
  by (simp add: wfState_def staleState_def emptyState_def markerAt_def)

lemma broken_pass_from:
  assumes "map_of (markerCache s) (lit ''warehouse-w2'') = None"
  shows "createMarkers nts (optionsOf [brokenDepot] cs) s =
     (Inl URIError, s\<lparr>heap := heap s @ [\<lparr>latlng = \<lparr>lat = 36, lng = 3\<rparr>, icon = desktopWarehouseIcon,
        popup = None, listeners = []\<rparr>]\<rparr>)"
  using assms
  by (simp add: createMarkers_def optionsOf_def brokenDepot_def depotNord_def
      warehouseBody_def cacheGet_def L_marker_def createGoogleMapsLink_def enc_broken
      isMobileOrDefault_def warehouseIconToUse_def lit_append[symmetric] del: encodeURIComponent.simps)

lemma names_sample: "namesEncodable (optionsOf [depotNord] cs)"
  by (simp add: namesEncodable_def optionsOf_def wellFormed_depot)

lemma coordinates_sample: "coordinatesValid (optionsOf [depotNord] [karim])"
  "coordinatesValid (optionsOf [depotNord] [])"
  by (simp_all add: coordinatesValid_def validCoordinates_def optionsOf_def depotNord_def karim_def)

lemma returns_sample: "returnsNormally nts (optionsOf [depotNord] [karim]) s"
  "returnsNormally nts (optionsOf [depotNord] []) s"
  by (rule createMarkers_returns[OF names_sample], simp add: coordinates_sample)+

lemma targetKeys_sample:
  "targetKeys (optionsOf [depotNord] [karim]) = [lit ''warehouse-w1'', lit ''chauffeur-d1'']"
  by (simp add: targetKeys_def optionsOf_def warehouseKey_def chauffeurKey_def hasCoordinates_def
      depotNord_def karim_def lit_def)

lemma targetKeys_sample_warehouse:
  "targetKeys (optionsOf [depotNord] []) = [lit ''warehouse-w1'']"
  by (simp add: targetKeys_def optionsOf_def warehouseKey_def depotNord_def lit_def)

lemma targetKeys_broken:
  "targetKeys (optionsOf [brokenDepot] []) = [lit ''warehouse-w2'']"
  by (simp add: targetKeys_def optionsOf_def warehouseKey_def brokenDepot_def depotNord_def lit_def)

lemma keys_differ: "lit ''chauffeur-d1'' \<noteq> lit ''warehouse-w1''" "lit ''chauffeur-d1'' \<noteq> lit ''warehouse-w2''"
  "lit ''chauffeur-d2'' \<noteq> lit ''chauffeur-d1''" "lit ''d1'' \<noteq> lit ''d2''"
  by (simp_all add: lit_def)

text \<open>
  A composite key identifies the kind of record and its identifier: keys of one kind agree
  only on equal identifiers, and no warehouse key is a chauffeur key.
\<close>

lemma warehouseKey_eq_iff: "warehouseKey a = warehouseKey b \<longleftrightarrow> warehouse_id a = warehouse_id b"
  by (simp add: warehouseKey_def)

lemma chauffeurKey_eq_iff: "chauffeurKey a = chauffeurKey b \<longleftrightarrow> chauffeur_id a = chauffeur_id b"
  by (simp add: chauffeurKey_def)

lemma warehouseKey_not_chauffeurKey: "warehouseKey w \<noteq> chauffeurKey c"
  by (simp add: warehouseKey_def chauffeurKey_def lit_def)

text \<open>Two passes over the samples, evaluated.\<close>

lemma link_depot:
  "createGoogleMapsLink sampleNumberToString (Finite 36) (Finite 3) (warehouse_name depotNord) =
     Inr (lit ''https://www.google.com/maps/search/?api=1&query='' @ lit ''36'' @ lit '','' @ lit ''3'' @
          lit ''&query_place_id='' @ lit ''D%C3%A9p%C3%B4t%20Nord'')"
  by (simp add: createGoogleMapsLink_def surr_enc codePoints_depot percentEncode_depot
      sampleNumberToString_def del: encodeURIComponent.simps)

lemma sample_pass:
  "fst (createMarkers sampleNumberToString (optionsOf [depotNord] [karim]) emptyState) = Inr [0, 1]"
proof -
  have c: "warehouse_coordinates depotNord = \<lparr>coordinates_lat = Finite 36, coordinates_lng = Finite 3\<rparr>"
    "warehouse_id depotNord = lit ''w1''"
    by (simp_all add: depotNord_def)
  have k: "chauffeur_coordinates karim = Some \<lparr>coordinates_lat = Finite 10, coordinates_lng = Finite 10\<rparr>"
    "chauffeur_id karim = lit ''d1''"
    by (simp_all add: karim_def)
  have d: "lit ''chauffeur-'' @ lit ''d1'' \<noteq> lit ''warehouse-'' @ lit ''w1''" by (simp add: lit_def)
  show ?thesis
    by (simp add: createMarkers_def optionsOf_def emptyState_def warehouseBody_def chauffeurBody_def
        c k d link_depot cacheGet_def cacheSet_def L_marker_def bindPopup_def on_click_def
        attachAndPush_def hasLayer_def addTo_def Let_def)
qed

lemma sample_pass_stale:
  "fst (createMarkers sampleNumberToString (optionsOf [depotNord] []) staleState) = Inr [1]"
proof -
  have c: "warehouse_coordinates depotNord = \<lparr>coordinates_lat = Finite 36, coordinates_lng = Finite 3\<rparr>"
    "warehouse_id depotNord = lit ''w1''"
    by (simp_all add: depotNord_def)
  have d: "lit ''chauffeur-d1'' \<noteq> lit ''warehouse-'' @ lit ''w1''" by (simp add: lit_def)
  show ?thesis
    by (simp add: createMarkers_def optionsOf_def staleState_def emptyState_def warehouseBody_def
        c d d[symmetric] link_depot cacheGet_def cacheSet_def L_marker_def bindPopup_def on_click_def
        attachAndPush_def hasLayer_def addTo_def Let_def)
qed

text \<open>
  A NaN coordinate makes \<open>L.marker\<close> raise, in either loop; the pass stops there and the
  state is as the visits before left it.
\<close>

lemma nan_pass_warehouse:
  "createMarkers nts (optionsOf [nanDepot] cs) emptyState = (Inl InvalidLatLng, emptyState)"
  by (simp add: createMarkers_def optionsOf_def nanDepot_def depotNord_def emptyState_def
      warehouseBody_def cacheGet_def L_marker_def)

lemma nan_pass_chauffeur:
  "createMarkers nts (optionsOf [] [nanKarim]) emptyState = (Inl InvalidLatLng, emptyState)"
  by (simp add: createMarkers_def optionsOf_def nanKarim_def karim_def emptyState_def
      chauffeurBody_def cacheGet_def L_marker_def)
section \<open>The claims about createMarkers\<close>

text \<open>
  The states the theorems speak of satisfy \<open>wfState\<close>. The state of a freshly loaded
  module does (\<open>wf_empty\<close>), and every pass keeps it, whether it returns or raises
  (\<open>createMarkers_wf\<close>, \<open>runPasses_wf\<close>).
\<close>

lemma runPasses_wf: "wfState s \<Longrightarrow> wfState (runPasses nts passes s)"
  by (induction passes arbitrary: s) (simp_all add: createMarkers_wf)

text \<open>
  Claim C1, as amended. Whenever a pass from a well-formed state returns normally, the
  keys of the cache are exactly the composite keys of all input warehouses and of the
  input chauffeurs that have coordinates, and no key occurs twice in the cache.
\<close>

theorem createMarkers_key_set:
  assumes "wfState s" and "createMarkers nts opts s = (Inr ms, s')"
  shows "cacheKeys s' = set (targetKeys opts) \<and> distinct (map fst (markerCache s'))"
proof
  from assms(2) show "cacheKeys s' = set (targetKeys opts)" by (rule createMarkers_keys)
  from createMarkers_wf_Inr[OF assms] show "distinct (map fst (markerCache s'))"
    by (simp add: wfState_def)
qed

theorem createMarkers_key_set_witness:
  "wfState emptyState \<and>
   fst (createMarkers sampleNumberToString (optionsOf [depotNord] [karim]) emptyState) = Inr [0, 1] \<and>
   cacheKeys (snd (createMarkers sampleNumberToString (optionsOf [depotNord] [karim]) emptyState)) =
     {lit ''warehouse-w1'', lit ''chauffeur-d1''} \<and>
   distinct (map fst (markerCache (snd (createMarkers sampleNumberToString (optionsOf [depotNord] [karim]) emptyState))))"
proof -
  let ?o = "optionsOf [depotNord] [karim]"
  have t: "set (targetKeys ?o) = {lit ''warehouse-w1'', lit ''chauffeur-d1''}"
    by (simp add: targetKeys_sample)
  obtain s' where e: "createMarkers sampleNumberToString ?o emptyState = (Inr [0, 1], s')"
    using sample_pass by (cases "createMarkers sampleNumberToString ?o emptyState") auto
  from createMarkers_key_set[OF wf_empty e] e t wf_empty show ?thesis by simp
qed

text \<open>
  The claim as stated, for every pair of input lists, fails: a warehouse whose name is a
  lone surrogate makes \<open>encodeURIComponent\<close> raise, the pass stops before the warehouse is
  cached, and the cache has no entry for it.
\<close>

theorem createMarkers_key_set_counterexample:
  "\<not> cacheKeys (snd (createMarkers sampleNumberToString (optionsOf [brokenDepot] []) emptyState)) =
       set (targetKeys (optionsOf [brokenDepot] []))"
proof -
  have n: "map_of (markerCache emptyState) (lit ''warehouse-w2'') = None"
    by (simp add: emptyState_def)
  show ?thesis unfolding broken_pass_from[OF n]
    by (simp add: cacheKeys_def emptyState_def targetKeys_broken)
qed

text \<open>
  Claim C2, as amended. Whenever a pass from a well-formed state returns the list \<open>ms\<close>
  and leaves the state \<open>s'\<close>, a second pass with the same inputs returns \<open>ms\<close> again and
  leaves \<open>s'\<close> as it is: no marker is built, no call is made on the surface, the cache
  and the layers are unchanged.
\<close>

theorem createMarkers_idempotent:
  assumes "wfState s" and "createMarkers nts opts s = (Inr ms, s')"
  shows "createMarkers nts opts s' = (Inr ms, s')"
  using assms by (rule createMarkers_second)

theorem createMarkers_idempotent_witness:
  "wfState emptyState \<and>
   fst (createMarkers sampleNumberToString (optionsOf [depotNord] [karim]) emptyState) = Inr [0, 1] \<and>
   createMarkers sampleNumberToString (optionsOf [depotNord] [karim])
     (snd (createMarkers sampleNumberToString (optionsOf [depotNord] [karim]) emptyState)) =
   createMarkers sampleNumberToString (optionsOf [depotNord] [karim]) emptyState"
proof -
  let ?o = "optionsOf [depotNord] [karim]"
  obtain s' where e: "createMarkers sampleNumberToString ?o emptyState = (Inr [0, 1], s')"
    using sample_pass by (cases "createMarkers sampleNumberToString ?o emptyState") auto
  from createMarkers_idempotent[OF wf_empty e] e wf_empty show ?thesis by simp
qed

text \<open>
  The claim as stated fails where the first pass raises: the second pass raises again,
  returns no list, and has built one more marker, which it drops.
\<close>

theorem createMarkers_idempotent_counterexample:
  "fst (createMarkers sampleNumberToString (optionsOf [brokenDepot] []) emptyState) = Inl URIError \<and>
   length (heap (snd (createMarkers sampleNumberToString (optionsOf [brokenDepot] []) emptyState))) = 1 \<and>
   fst (createMarkers sampleNumberToString (optionsOf [brokenDepot] [])
     (snd (createMarkers sampleNumberToString (optionsOf [brokenDepot] []) emptyState))) = Inl URIError \<and>
   length (heap (snd (createMarkers sampleNumberToString (optionsOf [brokenDepot] [])
     (snd (createMarkers sampleNumberToString (optionsOf [brokenDepot] []) emptyState))))) = 2"
proof -
  have n: "map_of (markerCache emptyState) (lit ''warehouse-w2'') = None"
    by (simp add: emptyState_def)
  let ?s1 = "emptyState\<lparr>heap := heap emptyState @ [\<lparr>latlng = \<lparr>lat = 36, lng = 3\<rparr>, icon = desktopWarehouseIcon,
        popup = None, listeners = []\<rparr>]\<rparr>"
  have n1: "map_of (markerCache ?s1) (lit ''warehouse-w2'') = None"
    by (simp add: emptyState_def)
  show ?thesis unfolding broken_pass_from[OF n] snd_conv fst_conv broken_pass_from[OF n1]
    by (simp add: emptyState_def)
qed

text \<open>
  Claim C3, as amended. Let the key \<open>k\<close> be cached with handle \<open>m\<close> in a well-formed
  state and be no key of the current inputs (its chauffeur was dropped from the list or
  has lost its coordinates). Whenever the pass returns normally, it has called
  \<open>removeLayer\<close> on \<open>m\<close>, the surface no longer has \<open>m\<close>, the cache no longer has \<open>k\<close>,
  and \<open>m\<close> is not in the returned list.
\<close>

theorem createMarkers_removes_stale:
  assumes "wfState s" and "cacheGet (markerCache s) k = Some m" and "k \<notin> set (targetKeys opts)"
    and "createMarkers nts opts s = (Inr ms, s')"
  shows "RemoveLayer m \<in> set (callsSince s s') \<and> m \<notin> layers s' \<and>
         k \<notin> cacheKeys s' \<and> m \<notin> set ms"
  using assms(1) assms(4) assms(2) assms(3) by (rule createMarkers_removal)

theorem createMarkers_removes_stale_witness:
  "wfState staleState \<and> cacheGet (markerCache staleState) (lit ''chauffeur-d1'') = Some 0 \<and>
   lit ''chauffeur-d1'' \<notin> set (targetKeys (optionsOf [depotNord] [])) \<and>
   fst (createMarkers sampleNumberToString (optionsOf [depotNord] []) staleState) = Inr [1] \<and>
   RemoveLayer 0 \<in> set (callsSince staleState
      (snd (createMarkers sampleNumberToString (optionsOf [depotNord] []) staleState))) \<and>
   0 \<notin> layers (snd (createMarkers sampleNumberToString (optionsOf [depotNord] []) staleState)) \<and>
   lit ''chauffeur-d1'' \<notin> cacheKeys (snd (createMarkers sampleNumberToString (optionsOf [depotNord] []) staleState))"
proof -
  let ?o = "optionsOf [depotNord] []"
  have c: "cacheGet (markerCache staleState) (lit ''chauffeur-d1'') = Some 0"
    by (simp add: cacheGet_def staleState_def)
  have k: "lit ''chauffeur-d1'' \<notin> set (targetKeys ?o)"
    by (simp add: targetKeys_sample_warehouse keys_differ)
  obtain s' where e: "createMarkers sampleNumberToString ?o staleState = (Inr [1], s')"
    using sample_pass_stale by (cases "createMarkers sampleNumberToString ?o staleState") auto
  from createMarkers_removes_stale[OF wf_stale c k e] wf_stale c k e show ?thesis by simp
qed

text \<open>
  The claim as stated fails where the pass raises in the warehouse loop: the removal loop
  is never reached, the stale key stays cached, its marker stays on the surface, and no
  call was made on the surface.
\<close>

theorem createMarkers_removes_stale_counterexample:
  "wfState staleState \<and> cacheGet (markerCache staleState) (lit ''chauffeur-d1'') = Some 0 \<and>
   lit ''chauffeur-d1'' \<notin> set (targetKeys (optionsOf [brokenDepot] [])) \<and>
   cacheGet (markerCache (snd (createMarkers sampleNumberToString (optionsOf [brokenDepot] []) staleState)))
      (lit ''chauffeur-d1'') = Some 0 \<and>
   0 \<in> layers (snd (createMarkers sampleNumberToString (optionsOf [brokenDepot] []) staleState)) \<and>
   callsSince staleState (snd (createMarkers sampleNumberToString (optionsOf [brokenDepot] []) staleState)) = []"
proof -
  have n: "map_of (markerCache staleState) (lit ''warehouse-w2'') = None"
    by (simp add: staleState_def keys_differ[symmetric])
  have c: "cacheGet (markerCache staleState) (lit ''chauffeur-d1'') = Some 0"
    by (simp add: cacheGet_def staleState_def)
  have l: "0 \<in> layers staleState" by (simp add: staleState_def)
  have k: "lit ''chauffeur-d1'' \<notin> set (targetKeys (optionsOf [brokenDepot] []))"
    by (simp add: targetKeys_broken keys_differ)
  show ?thesis unfolding broken_pass_from[OF n]
    using wf_stale c l k by (simp add: cacheGet_def callsSince_def)
qed

text \<open>
  Claim C4. Chauffeurs without coordinates are passed over silently: a pass behaves
  exactly as the pass over the input without them, in what it returns (a list or the
  error another record raises) and in the state it leaves. And over any number of passes in
  each of which every chauffeur with the identifier \<open>ident\<close> lacks coordinates, no cache
  entry for that chauffeur comes into being.
\<close>

theorem createMarkers_excludes_without_coordinates:
  "createMarkers nts (opts\<lparr>chauffeurs := filter hasCoordinates (chauffeurs opts)\<rparr>) s =
     createMarkers nts opts s \<and>
   (list_all (lacksCoordinates ident) passes \<and> lit ''chauffeur-'' @ ident \<notin> cacheKeys s \<longrightarrow>
      lit ''chauffeur-'' @ ident \<notin> cacheKeys (runPasses nts passes s))"
  using createMarkers_filter runPasses_no_entry by blast

theorem createMarkers_excludes_without_coordinates_witness:
  "createMarkers sampleNumberToString
     ((optionsOf [depotNord] [karim, nadia])\<lparr>chauffeurs := [karim]\<rparr>) emptyState =
   createMarkers sampleNumberToString (optionsOf [depotNord] [karim, nadia]) emptyState \<and>
   list_all (lacksCoordinates (lit ''d2'')) [optionsOf [depotNord] [karim, nadia], optionsOf [] [nadia]] \<and>
   lit ''chauffeur-'' @ lit ''d2'' \<notin> cacheKeys emptyState \<and>
   lit ''chauffeur-'' @ lit ''d2'' \<notin> cacheKeys (runPasses sampleNumberToString
      [optionsOf [depotNord] [karim, nadia], optionsOf [] [nadia]] emptyState)"
proof -
  let ?o = "optionsOf [depotNord] [karim, nadia]"
  let ?ps = "[?o, optionsOf [] [nadia]]"
  have f: "filter hasCoordinates (chauffeurs ?o) = [karim]"
    by (simp add: optionsOf_def hasCoordinates_def karim_def nadia_def)
  have l: "list_all (lacksCoordinates (lit ''d2'')) ?ps"
    by (simp add: lacksCoordinates_def optionsOf_def karim_def nadia_def keys_differ)
  have e: "lit ''chauffeur-'' @ lit ''d2'' \<notin> cacheKeys emptyState"
    by (simp add: cacheKeys_def emptyState_def)
  from createMarkers_excludes_without_coordinates[of sampleNumberToString ?o emptyState "lit ''d2''" ?ps] f l e
  show ?thesis by simp
qed

text \<open>
  Claim C8, as amended. Whenever a pass returns the list \<open>ms\<close>, looking up the target keys
  (warehouses first, then chauffeurs with coordinates, each in input order) in the cache it
  leaves gives exactly \<open>ms\<close>, handle by handle.
\<close>

theorem createMarkers_returned_list:
  assumes "createMarkers nts opts s = (Inr ms, s')"
  shows "map (cacheGet (markerCache s')) (targetKeys opts) = map Some ms"
  using assms by (rule createMarkers_returned)

theorem createMarkers_returned_list_witness:
  "fst (createMarkers sampleNumberToString (optionsOf [depotNord] [karim]) emptyState) = Inr [0, 1] \<and>
   targetKeys (optionsOf [depotNord] [karim]) = [lit ''warehouse-w1'', lit ''chauffeur-d1''] \<and>
   map (cacheGet (markerCache (snd (createMarkers sampleNumberToString (optionsOf [depotNord] [karim]) emptyState))))
     [lit ''warehouse-w1'', lit ''chauffeur-d1''] = [Some 0, Some 1]"
proof -
  let ?o = "optionsOf [depotNord] [karim]"
  obtain s' where e: "createMarkers sampleNumberToString ?o emptyState = (Inr [0, 1], s')"
    using sample_pass by (cases "createMarkers sampleNumberToString ?o emptyState") auto
  from createMarkers_returned_list[OF e] e show ?thesis by (simp add: targetKeys_sample)
qed

text \<open>
  The claim as stated, for every pair of input lists, fails: with a warehouse whose name is
  a lone surrogate the pass raises and returns no list.
\<close>

theorem createMarkers_returned_list_counterexample:
  "\<not> (\<exists>ms. fst (createMarkers sampleNumberToString (optionsOf [brokenDepot] [karim]) emptyState) = Inr ms)"
proof -
  have n: "map_of (markerCache emptyState) (lit ''warehouse-w2'') = None"
    by (simp add: emptyState_def)
  show ?thesis unfolding broken_pass_from[OF n] by simp
qed

text \<open>
  Claim C10. Let the key \<open>k\<close> be cached with handle \<open>m\<close> when a pass starts. Whatever the
  options of the pass are (the fields of the records, the translation, the callbacks, the
  display mode), and whether it returns or raises, the marker \<open>m\<close> is afterwards what it
  was: position, icon, popup and click listener are untouched. If \<open>k\<close> is the key of an
  input record, the cache still maps \<open>k\<close> to \<open>m\<close>, and the returned list has \<open>m\<close> at
  every position of that key.
\<close>

theorem createMarkers_reuses_cached:
  assumes "wfState s" and "cacheGet (markerCache s) k = Some m"
    and "createMarkers nts opts s = (r, s')"
  shows "heap s' ! m = heap s ! m \<and>
         (k \<in> set (targetKeys opts) \<longrightarrow>
            cacheGet (markerCache s') k = Some m \<and>
            (\<forall>ms i. r = Inr ms \<and> i < length (targetKeys opts) \<and> targetKeys opts ! i = k \<longrightarrow> ms ! i = m))"
proof (intro conjI impI allI)
  from assms(2) have "(k, m) \<in> set (markerCache s)" by (simp add: cacheGet_def map_of_SomeD)
  with assms(1) have "m < length (heap s)" by (auto simp: wfState_def list_all_iff)
  with createMarkers_heap_grows[OF assms(3)] show "heap s' ! m = heap s ! m"
    by (auto simp: nth_append)
next
  assume k: "k \<in> set (targetKeys opts)"
  from createMarkers_lookup_kept[OF assms(3,2) k] show c: "cacheGet (markerCache s') k = Some m" .
  fix ms i assume h: "r = Inr ms \<and> i < length (targetKeys opts) \<and> targetKeys opts ! i = k"
  with assms(3) have "createMarkers nts opts s = (Inr ms, s')" by simp
  from createMarkers_returned[OF this]
  have e: "map (cacheGet (markerCache s')) (targetKeys opts) = map Some ms" .
  then have "length ms = length (targetKeys opts)" by (metis length_map)
  with e h have "cacheGet (markerCache s') (targetKeys opts ! i) = Some (ms ! i)"
    by (metis nth_map)
  with h c show "ms ! i = m" by simp
qed

theorem createMarkers_reuses_cached_witness:
  "wfState staleState \<and> cacheGet (markerCache staleState) (lit ''chauffeur-d1'') = Some 0 \<and>
   lit ''chauffeur-d1'' \<in> set (targetKeys (optionsOf [depotNord] [karim])) \<and>
   heap (snd (createMarkers sampleNumberToString (optionsOf [depotNord] [karim]) staleState)) ! 0 = markerAt 10 10 \<and>
   cacheGet (markerCache (snd (createMarkers sampleNumberToString (optionsOf [depotNord] [karim]) staleState)))
     (lit ''chauffeur-d1'') = Some 0 \<and>
   (\<exists>ms. fst (createMarkers sampleNumberToString (optionsOf [depotNord] [karim]) staleState) = Inr ms \<and> ms ! 1 = 0)"
proof -
  let ?o = "optionsOf [depotNord] [karim]"
  have c: "cacheGet (markerCache staleState) (lit ''chauffeur-d1'') = Some 0"
    by (simp add: cacheGet_def staleState_def)
  have k: "lit ''chauffeur-d1'' \<in> set (targetKeys ?o)" by (simp add: targetKeys_sample)
  have "returnsNormally sampleNumberToString ?o staleState"
    by (rule returns_sample)
  then obtain ms s' where e: "createMarkers sampleNumberToString ?o staleState = (Inr ms, s')"
    by (auto simp: returnsNormally_iff)
  from createMarkers_reuses_cached[OF wf_stale c e] k
  have "heap s' ! 0 = heap staleState ! 0" "cacheGet (markerCache s') (lit ''chauffeur-d1'') = Some 0"
    "1 < length (targetKeys ?o) \<and> targetKeys ?o ! 1 = lit ''chauffeur-d1'' \<longrightarrow> ms ! 1 = 0"
    by blast+
  with wf_stale c k e show ?thesis by (simp add: targetKeys_sample staleState_def)
qed

section \<open>The claims about fitMapToMarkers\<close>



text \<open>
  Claim C6, as amended. For the empty marker list, whatever \<open>forceRefresh\<close> is, one call
  \<open>setView\<close> asks the surface for the centre (28.0339, 1.6596) and zoom 6; the view ends
  at what the surface's own limits make of that zoom and centre, so at zoom 6 and that
  centre on a surface whose limits leave them as they are.
\<close>

theorem fitMapToMarkers_empty:
  "fitMapToMarkers s [] forceRefresh =
     Inr (s\<lparr>zoom := limitZoom s 6,
            center := limitCenter s \<lparr>lat = 28.0339, lng = 1.6596\<rparr> (limitZoom s 6),
            calls := calls s @ [SetView \<lparr>lat = 28.0339, lng = 1.6596\<rparr> 6]\<rparr>) \<and>
   (limitZoom s 6 = 6 \<and> limitCenter s \<lparr>lat = 28.0339, lng = 1.6596\<rparr> 6 = \<lparr>lat = 28.0339, lng = 1.6596\<rparr> \<longrightarrow>
      fitMapToMarkers s [] forceRefresh =
        Inr (s\<lparr>zoom := 6, center := \<lparr>lat = 28.0339, lng = 1.6596\<rparr>,
               calls := calls s @ [SetView \<lparr>lat = 28.0339, lng = 1.6596\<rparr> 6]\<rparr>))"
  by (simp add: fitMapToMarkers_def setView_def moveView_def Let_def)

theorem fitMapToMarkers_empty_witness:
  "limitZoom staleState 6 = 6 \<and>
   limitCenter staleState \<lparr>lat = 28.0339, lng = 1.6596\<rparr> 6 = \<lparr>lat = 28.0339, lng = 1.6596\<rparr> \<and>
   center (projr (fitMapToMarkers staleState [] True)) = \<lparr>lat = 28.0339, lng = 1.6596\<rparr> \<and>
   zoom (projr (fitMapToMarkers staleState [] True)) = 6 \<and>
   fitMapToMarkers staleState [] False = fitMapToMarkers staleState [] True \<and>
   callsSince staleState (projr (fitMapToMarkers staleState [] False)) =
     [SetView \<lparr>lat = 28.0339, lng = 1.6596\<rparr> 6]"
proof -
  have l: "limitZoom staleState 6 = 6"
    "limitCenter staleState \<lparr>lat = 28.0339, lng = 1.6596\<rparr> 6 = \<lparr>lat = 28.0339, lng = 1.6596\<rparr>"
    by (simp_all add: staleState_def emptyState_def clampZoom_def)
  from fitMapToMarkers_empty[of staleState True] fitMapToMarkers_empty[of staleState False] l
  show ?thesis by (simp add: callsSince_def)
qed

text \<open>
  The claim as stated fails on a surface whose maximum zoom is 4: the call asks for zoom
  6 and the view ends at zoom 4.
\<close>

theorem fitMapToMarkers_empty_counterexample:
  "zoom (projr (fitMapToMarkers lowCeilingState [] True)) = 4 \<and>
   zoom (projr (fitMapToMarkers lowCeilingState [] False)) = 4 \<and>
   callsSince lowCeilingState (projr (fitMapToMarkers lowCeilingState [] True)) =
     [SetView \<lparr>lat = 28.0339, lng = 1.6596\<rparr> 6]"
  by (simp add: fitMapToMarkers_def setView_def moveView_def Let_def callsSince_def
      lowCeilingState_def emptyState_def clampZoom_def)

text \<open>
  Claim C7, as amended. For a non-empty list of existing markers and \<open>forceRefresh\<close> true,
  one call \<open>fitBounds\<close> with padding (20, 20) and zoom cap 15 fits the surface to the
  bounds \<open>b\<close> of the markers: \<open>b\<close> holds the coordinate of every marker and every region
  that holds them all holds \<open>b\<close>. The zoom the fit asks for is at most 15; the zoom
  afterwards is what the surface's own limits make of it, so at most 15 on a surface
  whose limits raise no zoom of at most 15 above 15.
\<close>

theorem fitMapToMarkers_forced:
  assumes "markerList \<noteq> []" and "list_all (\<lambda>m. m < length (heap s)) markerList"
  shows "\<exists>b s'. fitMapToMarkers s markerList True = Inr s' \<and>
           getBounds s markerList = Some b \<and>
           (\<forall>m\<in>set markerList. inBounds b (latlng (heap s ! m))) \<and>
           (\<forall>b'. (\<forall>m\<in>set markerList. inBounds b' (latlng (heap s ! m))) \<longrightarrow> withinBounds b b') \<and>
           calls s' = calls s @ [FitBounds b (20, 20) 15] \<and>
           min 15 (boundsZoom s b (40, 40)) \<le> 15 \<and>
           zoom s' = limitZoom s (min 15 (boundsZoom s b (40, 40))) \<and>
           ((\<forall>z. z \<le> 15 \<longrightarrow> limitZoom s z \<le> 15) \<longrightarrow> zoom s' \<le> 15)"
proof -
  from getBounds_nonempty[OF assms(1)] obtain b where b: "getBounds s markerList = Some b" by blast
  from getBounds_smallest[OF b] assms(1) b show ?thesis
    by (simp add: fitMapToMarkers_def fitBounds_Some)
qed

theorem fitMapToMarkers_forced_witness:
  "[0, 1] \<noteq> ([]::nat list) \<and> list_all (\<lambda>m. m < length (heap pairState)) [0, 1] \<and>
   getBounds pairState [0, 1] =
     Some \<lparr>southWest = \<lparr>lat = 10, lng = 10\<rparr>, northEast = \<lparr>lat = 20, lng = 20\<rparr>\<rparr> \<and>
   (\<exists>s'. fitMapToMarkers pairState [0, 1] True = Inr s' \<and> zoom s' = 15 \<and>
      calls s' = [FitBounds \<lparr>southWest = \<lparr>lat = 10, lng = 10\<rparr>, northEast = \<lparr>lat = 20, lng = 20\<rparr>\<rparr> (20, 20) 15])"
proof -
  have v: "list_all (\<lambda>m. m < length (heap pairState)) [0, 1]" by (simp add: pairState_def)
  have b: "getBounds pairState [0, 1] =
     Some \<lparr>southWest = \<lparr>lat = 10, lng = 10\<rparr>, northEast = \<lparr>lat = 20, lng = 20\<rparr>\<rparr>"
    by (simp add: getBounds_def pairState_def markerAt_def)
  have z: "boundsZoom pairState = (\<lambda>b p. 18)" "calls pairState = []"
    "limitZoom pairState = clampZoom 0 18"
    by (simp_all add: pairState_def emptyState_def)
  from fitMapToMarkers_forced[of "[0, 1]" pairState] v b z show ?thesis
    by (auto simp: clampZoom_def)
qed

text \<open>
  The claim as stated fails on a surface whose minimum zoom is 16: the fit asks for zoom
  15 and the view ends at zoom 16.
\<close>

theorem fitMapToMarkers_forced_counterexample:
  "list_all (\<lambda>m. m < length (heap highFloorState)) [0, 1] \<and>
   zoom (projr (fitMapToMarkers highFloorState [0, 1] True)) = 16 \<and>
   \<not> zoom (projr (fitMapToMarkers highFloorState [0, 1] True)) \<le> 15 \<and>
   callsSince highFloorState (projr (fitMapToMarkers highFloorState [0, 1] True)) =
     [FitBounds \<lparr>southWest = \<lparr>lat = 10, lng = 10\<rparr>, northEast = \<lparr>lat = 20, lng = 20\<rparr>\<rparr> (20, 20) 15]"
proof -
  have b: "getBounds highFloorState [0, 1] =
     Some \<lparr>southWest = \<lparr>lat = 10, lng = 10\<rparr>, northEast = \<lparr>lat = 20, lng = 20\<rparr>\<rparr>"
    by (simp add: getBounds_def highFloorState_def pairState_def markerAt_def)
  have f: "fitMapToMarkers highFloorState [0, 1] True =
      fitBounds (Some \<lparr>southWest = \<lparr>lat = 10, lng = 10\<rparr>, northEast = \<lparr>lat = 20, lng = 20\<rparr>\<rparr>)
        (20, 20) 15 highFloorState"
    using b by (simp add: fitMapToMarkers_def)
  show ?thesis unfolding f fitBounds_Some
    by (simp add: callsSince_def highFloorState_def pairState_def emptyState_def clampZoom_def)
qed

section \<open>The claim about the outbound link\<close>

text \<open>
  Claim C9, as amended. For a name without unpaired surrogates, with code points \<open>cps\<close>,
  the link is the Google Maps search address with the two numbers in the platform's
  string form and the percent-encoded name; for a name with an unpaired surrogate,
  \<open>createGoogleMapsLink\<close> raises URIError and there is no link.
\<close>

theorem createGoogleMapsLink_format:
  "createGoogleMapsLink numberToString latitude longitude name =
     (case codePoints name of
        None \<Rightarrow> Inl URIError
      | Some cps \<Rightarrow>
          Inr (lit ''https://www.google.com/maps/search/?api=1&query='' @ numberToString latitude @
               lit '','' @ numberToString longitude @ lit ''&query_place_id='' @ percentEncode cps))"
  by (simp add: createGoogleMapsLink_def surr_enc split: option.splits)

text \<open>The warehouse named Depot Nord (with its two accents) at (36, 3).\<close>

theorem createGoogleMapsLink_format_witness:
  "createGoogleMapsLink sampleNumberToString (Finite 36) (Finite 3) (warehouse_name depotNord) =
     Inr (lit ''https://www.google.com/maps/search/?api=1&query=36,3&query_place_id=D%C3%A9p%C3%B4t%20Nord'')"
  using createGoogleMapsLink_format[of sampleNumberToString "Finite 36" "Finite 3" "warehouse_name depotNord"]
  by (simp add: codePoints_depot percentEncode_depot sampleNumberToString_def lit_def)

text \<open>The claim as stated, for every name, fails at the name that is a lone surrogate.\<close>

theorem createGoogleMapsLink_format_counterexample:
  "\<not> (\<exists>link. createGoogleMapsLink sampleNumberToString (Finite 36) (Finite 3) [0xD800] = Inr link)"
  by (simp add: createGoogleMapsLink_def enc_broken del: encodeURIComponent.simps)

end
